theory Spec2Isabelle
  imports Complex_Main "HOL-Library.Multiset"
begin

section \<open>Numbers of the script\<close>

text \<open>
  The script \<^verbatim>\<open>tokenize-css.js\<close> computes with JavaScript numbers. They are modelled
  as real numbers: every arithmetic step is exact and every number is finite. The three
  values a division can produce beyond the finite ones (\<^verbatim>\<open>Infinity\<close>,
  \<^verbatim>\<open>-Infinity\<close>, \<^verbatim>\<open>NaN\<close>) are written out where the script divides by a configured
  size, because there they reach the output text.
\<close>

definition clamp :: "real \<Rightarrow> real \<Rightarrow> real \<Rightarrow> real" where
  \<comment> \<open>\<^verbatim>\<open>Math.min(hi, Math.max(lo, v))\<close>\<close>
  "clamp v lo hi = min hi (max lo v)"

definition jsRound :: "real \<Rightarrow> real" where
  \<comment> \<open>\<^verbatim>\<open>Math.round\<close>: the nearest integer, a tie going up\<close>
  "jsRound x = of_int \<lfloor>x + 1 / 2\<rfloor>"

definition jsRem :: "real \<Rightarrow> real \<Rightarrow> real" where
  \<comment> \<open>\<^verbatim>\<open>x % y\<close> for a non-zero \<open>y\<close>: the remainder has the sign of \<open>x\<close>\<close>
  "jsRem x y = x - y * of_int (if x / y < 0 then \<lceil>x / y\<rceil> else \<lfloor>x / y\<rfloor>)"

section \<open>Color model\<close>

record rgba =
  rgba_r :: real
  rgba_g :: real
  rgba_b :: real
  rgba_a :: real

record hsl =
  hsl_h :: real
  hsl_s :: real
  hsl_l :: real
  hsl_a :: real

definition rgbaToHsl :: "rgba \<Rightarrow> hsl" where
  "rgbaToHsl c =
     (let R = rgba_r c / 255; G = rgba_g c / 255; B = rgba_b c / 255;
          mx = max R (max G B); mn = min R (min G B);
          l = (mx + mn) / 2;
          d = mx - mn
      in if d \<noteq> 0 then
           (let s = (if l > 0.5 then d / (2 - mx - mn) else d / (mx + mn));
                h = (if mx = R then (G - B) / d + (if G < B then 6 else 0)
                     else if mx = G then (B - R) / d + 2
                     else (R - G) / d + 4)
            in \<lparr>hsl_h = h * 60, hsl_s = s, hsl_l = l, hsl_a = rgba_a c\<rparr>)
         else \<lparr>hsl_h = 0, hsl_s = 0, hsl_l = l, hsl_a = rgba_a c\<rparr>)"

definition hueChannel :: "real \<Rightarrow> real \<Rightarrow> real \<Rightarrow> real" where
  \<comment> \<open>the function mapped over \<^verbatim>\<open>[hk + 1/3, hk, hk - 1/3]\<close> in \<^verbatim>\<open>hslToRgba\<close>\<close>
  "hueChannel p q x0 =
     (let x = jsRem (jsRem x0 1 + 1) 1
      in if x < 1 / 6 then p + (q - p) * 6 * x
         else if x < 1 / 2 then q
         else if x < 2 / 3 then p + (q - p) * (2 / 3 - x) * 6
         else p)"

definition hslToRgba :: "hsl \<Rightarrow> rgba" where
  "hslToRgba c =
     (let h = jsRem (jsRem (hsl_h c) 360 + 360) 360;
          s = clamp (hsl_s c) 0 1;
          l = clamp (hsl_l c) 0 1
      in if s = 0 then
           (let v = jsRound (l * 255)
            in \<lparr>rgba_r = v, rgba_g = v, rgba_b = v, rgba_a = hsl_a c\<rparr>)
         else
           (let q = (if l < 0.5 then l * (1 + s) else l + s - l * s);
                p = 2 * l - q;
                hk = h / 360
            in \<lparr>rgba_r = jsRound (hueChannel p q (hk + 1 / 3) * 255),
                rgba_g = jsRound (hueChannel p q hk * 255),
                rgba_b = jsRound (hueChannel p q (hk - 1 / 3) * 255),
                rgba_a = hsl_a c\<rparr>))"

definition relLuminance :: "rgba \<Rightarrow> real" where
  "relLuminance c =
     (let nl = (\<lambda>c0. let c1 = c0 / 255
                     in if c1 \<le> 0.03928 then c1 / 12.92 else ((c1 + 0.055) / 1.055) powr 2.4)
      in 0.2126 * nl (rgba_r c) + 0.7152 * nl (rgba_g c) + 0.0722 * nl (rgba_b c))"

definition hslDist :: "hsl \<Rightarrow> hsl \<Rightarrow> real" where
  "hslDist x y =
     (let dh = \<bar>hsl_h x - hsl_h y\<bar> / 360;
          ds = \<bar>hsl_s x - hsl_s y\<bar>;
          dl = \<bar>hsl_l x - hsl_l y\<bar>
      in sqrt (dh * dh + ds * ds + dl * dl))"

definition clampRgb :: "rgba \<Rightarrow> rgba" where
  "clampRgb c =
     \<lparr>rgba_r = clamp (jsRound (rgba_r c)) 0 255,
      rgba_g = clamp (jsRound (rgba_g c)) 0 255,
      rgba_b = clamp (jsRound (rgba_b c)) 0 255,
      rgba_a = clamp (rgba_a c) 0 1\<rparr>"

definition invertRgb :: "rgba \<Rightarrow> rgba" where
  "invertRgb c =
     \<lparr>rgba_r = clamp (255 - rgba_r c) 10 245,
      rgba_g = clamp (255 - rgba_g c) 10 245,
      rgba_b = clamp (255 - rgba_b c) 10 245,
      rgba_a = rgba_a c\<rparr>"

definition toDarkTone :: "rgba \<Rightarrow> rgba" where
  "toDarkTone c =
     (let x = rgbaToHsl c;
          out = x\<lparr>hsl_l := clamp (1 - hsl_l x * 0.9) 0.1 0.92,
                  hsl_s := clamp (hsl_s x * 0.9) 0 1\<rparr>
      in clampRgb (hslToRgba out))"

definition toDark :: "rgba \<Rightarrow> string \<Rightarrow> rgba" where
  "toDark c mode =
     (if mode = ''invert'' then clampRgb (invertRgb c)
      else if mode = ''tone'' then toDarkTone c
      else
        (let x = rgbaToHsl c;
             neutral = (hsl_s x < 0.08);
             out0 = x\<lparr>hsl_l := clamp (1 - hsl_l x) 0.08 0.92\<rparr>;
             out = (if neutral then out0\<lparr>hsl_s := 0\<rparr> else out0)
         in clampRgb (hslToRgba out)))"

subsection \<open>Rounding and the flip of a neutral color\<close>

lemma jsRound_of_int: "jsRound (of_int n) = of_int n"
proof -
  have "\<lfloor>(of_int n :: real) + 1 / 2\<rfloor> = n" by linarith
  then show ?thesis by (simp add: jsRound_def)
qed

lemma jsRound_idem: "jsRound (jsRound x) = jsRound x"
  unfolding jsRound_def[of x] by (rule jsRound_of_int)

lemma jsRound_mono: "x \<le> y \<Longrightarrow> jsRound x \<le> jsRound y"
  by (simp add: jsRound_def floor_mono)

lemma jsRound_near: "\<bar>jsRound x - x\<bar> \<le> 1 / 2"
proof -
  have "of_int \<lfloor>x + 1 / 2\<rfloor> \<le> x + 1 / 2" and "x + 1 / 2 < of_int \<lfloor>x + 1 / 2\<rfloor> + 1"
    by linarith+
  then show ?thesis unfolding jsRound_def by linarith
qed

lemma rgbaToHsl_gray:
  "rgba_g c = rgba_r c \<Longrightarrow> rgba_b c = rgba_r c \<Longrightarrow>
   rgbaToHsl c = \<lparr>hsl_h = 0, hsl_s = 0, hsl_l = rgba_r c / 255, hsl_a = rgba_a c\<rparr>"
  by (simp add: rgbaToHsl_def Let_def)

lemma hslToRgba_gray:
  "hsl_s x \<le> 0 \<Longrightarrow>
   hslToRgba x =
     \<lparr>rgba_r = jsRound (clamp (hsl_l x) 0 1 * 255), rgba_g = jsRound (clamp (hsl_l x) 0 1 * 255),
      rgba_b = jsRound (clamp (hsl_l x) 0 1 * 255), rgba_a = hsl_a x\<rparr>"
  by (simp add: hslToRgba_def Let_def clamp_def)

definition flipLevel :: "real \<Rightarrow> real" where
  \<comment> \<open>the gray level \<^verbatim>\<open>Math.round(clamp(1 - l, 0.08, 0.92) * 255)\<close> that the flip gives a neutral color\<close>
  "flipLevel l = jsRound (clamp (1 - l) 0.08 0.92 * 255)"

lemma flipLevel_range: "20 \<le> flipLevel l \<and> flipLevel l \<le> 235"
proof -
  have lo: "jsRound (0.08 * 255) = 20" and hi: "jsRound (0.92 * 255) = 235"
    by (simp_all add: jsRound_def)
  have "0.08 * 255 \<le> clamp (1 - l) 0.08 0.92 * 255" "clamp (1 - l) 0.08 0.92 * 255 \<le> 0.92 * 255"
    by (simp_all add: clamp_def min_def max_def)
  from jsRound_mono[OF this(1)] jsRound_mono[OF this(2)] show ?thesis
    unfolding flipLevel_def lo hi by simp
qed

lemma toDark_flip_neutral:
  assumes "hsl_s (rgbaToHsl c) < 0.08" "mode \<noteq> ''invert''" "mode \<noteq> ''tone''"
  shows "toDark c mode =
    \<lparr>rgba_r = flipLevel (hsl_l (rgbaToHsl c)), rgba_g = flipLevel (hsl_l (rgbaToHsl c)),
     rgba_b = flipLevel (hsl_l (rgbaToHsl c)), rgba_a = clamp (rgba_a c) 0 1\<rparr>"
proof -
  let ?l = "hsl_l (rgbaToHsl c)"
  have cl: "clamp (clamp (1 - ?l) 0.08 0.92) 0 1 = clamp (1 - ?l) 0.08 0.92"
    by (simp add: clamp_def min_def max_def)
  have a: "hsl_a (rgbaToHsl c) = rgba_a c"
    by (simp add: rgbaToHsl_def Let_def)
  have r: "clamp (jsRound (flipLevel ?l)) 0 255 = flipLevel ?l"
    using flipLevel_range[of ?l] by (simp add: flipLevel_def jsRound_idem clamp_def)
  have "toDark c mode = clampRgb (hslToRgba ((rgbaToHsl c)\<lparr>hsl_l := clamp (1 - ?l) 0.08 0.92, hsl_s := 0\<rparr>))"
    using assms by (simp add: toDark_def Let_def)
  also have "\<dots> = clampRgb \<lparr>rgba_r = jsRound (clamp (clamp (1 - ?l) 0.08 0.92) 0 1 * 255),
      rgba_g = jsRound (clamp (clamp (1 - ?l) 0.08 0.92) 0 1 * 255),
      rgba_b = jsRound (clamp (clamp (1 - ?l) 0.08 0.92) 0 1 * 255), rgba_a = rgba_a c\<rparr>"
    by (simp add: hslToRgba_gray a)
  also have "\<dots> = clampRgb \<lparr>rgba_r = flipLevel ?l, rgba_g = flipLevel ?l, rgba_b = flipLevel ?l, rgba_a = rgba_a c\<rparr>"
    by (simp only: cl flipLevel_def)
  also have "\<dots> = \<lparr>rgba_r = flipLevel ?l, rgba_g = flipLevel ?l, rgba_b = flipLevel ?l, rgba_a = clamp (rgba_a c) 0 1\<rparr>"
    by (simp add: clampRgb_def r)
  finally show ?thesis .
qed

lemma flipLevel_int: "\<exists>n. flipLevel l = of_int n \<and> 20 \<le> n \<and> n \<le> 235"
proof -
  have "flipLevel l = of_int \<lfloor>clamp (1 - l) 0.08 0.92 * 255 + 1 / 2\<rfloor>"
    by (simp add: flipLevel_def jsRound_def)
  moreover from flipLevel_range[of l] this
  have "20 \<le> \<lfloor>clamp (1 - l) 0.08 0.92 * 255 + 1 / 2\<rfloor>" "\<lfloor>clamp (1 - l) 0.08 0.92 * 255 + 1 / 2\<rfloor> \<le> 235"
    by linarith+
  ultimately show ?thesis by blast
qed

lemma flipLevel_back:
  assumes "20 \<le> n" "n \<le> 235"
  shows "flipLevel (of_int n / 255) = 255 - of_int n"
proof -
  consider "n = 20" | "n = 235" | "21 \<le> n \<and> n \<le> 234" using assms by linarith
  then show ?thesis
  proof cases
    case 1
    then show ?thesis by (simp add: flipLevel_def clamp_def jsRound_def)
  next
    case 2
    then show ?thesis by (simp add: flipLevel_def clamp_def jsRound_def)
  next
    case 3
    then have b: "(0.08::real) \<le> 1 - of_int n / 255" "1 - of_int n / 255 \<le> (0.92::real)"
      by simp_all
    then have "clamp (1 - of_int n / 255) 0.08 0.92 = 1 - of_int n / 255"
      by (simp add: clamp_def min_def max_def)
    moreover have "(1 - of_int n / 255) * 255 = (of_int (255 - n) :: real)"
      by (simp add: algebra_simps)
    ultimately have "flipLevel (of_int n / 255) = jsRound (of_int (255 - n))"
      by (simp only: flipLevel_def)
    then show ?thesis unfolding jsRound_of_int by simp
  qed
qed


lemma flipLevel_low: "l < 0.08 \<Longrightarrow> flipLevel l = 235"
proof -
  assume "l < 0.08"
  then have "clamp (1 - l) 0.08 0.92 = 0.92"
    by (simp add: clamp_def min_def max_def)
  then have "flipLevel l = jsRound (0.92 * 255)"
    by (simp only: flipLevel_def)
  then show ?thesis by (simp add: jsRound_def)
qed

lemma flipLevel_high: "0.92 < l \<Longrightarrow> flipLevel l = 20"
proof -
  assume "0.92 < l"
  then have "clamp (1 - l) 0.08 0.92 = 0.08"
    by (simp add: clamp_def min_def max_def)
  then have "flipLevel l = jsRound (0.08 * 255)"
    by (simp only: flipLevel_def)
  then show ?thesis by (simp add: jsRound_def)
qed


text \<open>
  Claim C4, as amended. The flip strategy, applied to a color whose saturation is below
  0.08, returns a gray: the saturation is 0 after one application and after two. When the
  lightness of the original lies in the interval from 0.08 to 0.92, the lightness after two
  applications differs from the original by at most 1/510, half a step of the 8-bit
  channels. When the lightness of the original is below 0.08, the lightness after two
  applications is 20/255, and when it is above 0.92 it is 235/255: there the clamp of the
  flip decides the result, whatever the original lightness was.
\<close>

theorem flip_twice_neutral:
  assumes "hsl_s (rgbaToHsl c) < 0.08"
  shows "hsl_s (rgbaToHsl (toDark c ''flip'')) = 0
       \<and> hsl_s (rgbaToHsl (toDark (toDark c ''flip'') ''flip'')) = 0
       \<and> (0.08 \<le> hsl_l (rgbaToHsl c) \<and> hsl_l (rgbaToHsl c) \<le> 0.92 \<longrightarrow>
            \<bar>hsl_l (rgbaToHsl (toDark (toDark c ''flip'') ''flip'')) - hsl_l (rgbaToHsl c)\<bar> \<le> 1 / 510)
       \<and> (hsl_l (rgbaToHsl c) < 0.08 \<longrightarrow>
            hsl_l (rgbaToHsl (toDark (toDark c ''flip'') ''flip'')) = 20 / 255)
       \<and> (0.92 < hsl_l (rgbaToHsl c) \<longrightarrow>
            hsl_l (rgbaToHsl (toDark (toDark c ''flip'') ''flip'')) = 235 / 255)"
proof -
  let ?l = "hsl_l (rgbaToHsl c)"
  let ?c1 = "toDark c ''flip''"
  let ?c2 = "toDark ?c1 ''flip''"
  obtain n where n: "flipLevel ?l = of_int n" "20 \<le> n" "n \<le> 235"
    using flipLevel_int by blast
  have c1: "?c1 = \<lparr>rgba_r = of_int n, rgba_g = of_int n, rgba_b = of_int n, rgba_a = clamp (rgba_a c) 0 1\<rparr>"
    using toDark_flip_neutral[OF assms, of "''flip''"] n(1) by simp
  have h1: "rgbaToHsl ?c1 = \<lparr>hsl_h = 0, hsl_s = 0, hsl_l = of_int n / 255, hsl_a = clamp (rgba_a c) 0 1\<rparr>"
    unfolding c1 by (simp add: rgbaToHsl_gray)
  have s1: "hsl_s (rgbaToHsl ?c1) < 0.08" unfolding h1 by simp
  have c2: "?c2 = \<lparr>rgba_r = 255 - of_int n, rgba_g = 255 - of_int n, rgba_b = 255 - of_int n,
                     rgba_a = clamp (rgba_a ?c1) 0 1\<rparr>"
    using toDark_flip_neutral[OF s1, of "''flip''"] flipLevel_back[OF n(2,3)] unfolding h1 by simp
  have h2: "rgbaToHsl ?c2 = \<lparr>hsl_h = 0, hsl_s = 0, hsl_l = (255 - of_int n) / 255, hsl_a = clamp (rgba_a ?c1) 0 1\<rparr>"
    unfolding c2 by (simp add: rgbaToHsl_gray)
  have near: "0.08 \<le> ?l \<and> ?l \<le> 0.92 \<longrightarrow> \<bar>(255 - of_int n) / 255 - ?l\<bar> \<le> 1 / 510"
  proof
    assume r: "0.08 \<le> ?l \<and> ?l \<le> 0.92"
    then have "clamp (1 - ?l) 0.08 0.92 = 1 - ?l"
      by (simp add: clamp_def min_def max_def)
    then have "of_int n = jsRound ((1 - ?l) * 255)"
      using n(1) by (simp only: flipLevel_def)
    with jsRound_near[of "(1 - ?l) * 255"] have "\<bar>of_int n - (1 - ?l) * 255\<bar> \<le> 1 / 2"
      by simp
    moreover have "(255 - of_int n) / 255 - ?l = - (of_int n - (1 - ?l) * 255) / 255"
      by (simp add: field_simps)
    ultimately show "\<bar>(255 - of_int n) / 255 - ?l\<bar> \<le> 1 / 510"
      by (simp only: abs_divide abs_minus) simp
  qed
  have low: "?l < 0.08 \<longrightarrow> (255 - of_int n) / 255 = (20 / 255 :: real)"
  proof
    assume "?l < 0.08"
    from flipLevel_low[OF this] n(1) have "(of_int n :: real) = 235" by simp
    then show "(255 - of_int n) / 255 = (20 / 255 :: real)" by simp
  qed
  have high: "0.92 < ?l \<longrightarrow> (255 - of_int n) / 255 = (235 / 255 :: real)"
  proof
    assume "0.92 < ?l"
    from flipLevel_high[OF this] n(1) have "(of_int n :: real) = 20" by simp
    then show "(255 - of_int n) / 255 = (235 / 255 :: real)" by simp
  qed
  have e1: "hsl_s (rgbaToHsl ?c1) = 0" unfolding h1 by simp
  have e2: "hsl_s (rgbaToHsl ?c2) = 0" unfolding h2 by simp
  have e3: "hsl_l (rgbaToHsl ?c2) = (255 - of_int n) / 255" unfolding h2 by simp
  show ?thesis
    unfolding e3 using e1 e2 near low high by blast
qed

theorem flip_twice_neutral_witness:
  "hsl_s (rgbaToHsl \<lparr>rgba_r = 100, rgba_g = 100, rgba_b = 104, rgba_a = 1\<rparr>) < 0.08
   \<and> 0.08 \<le> hsl_l (rgbaToHsl \<lparr>rgba_r = 100, rgba_g = 100, rgba_b = 104, rgba_a = 1\<rparr>)
   \<and> hsl_l (rgbaToHsl \<lparr>rgba_r = 100, rgba_g = 100, rgba_b = 104, rgba_a = 1\<rparr>) \<le> 0.92
   \<and> hsl_s (rgbaToHsl (toDark \<lparr>rgba_r = 100, rgba_g = 100, rgba_b = 104, rgba_a = 1\<rparr> ''flip'')) = 0
   \<and> hsl_s (rgbaToHsl (toDark (toDark \<lparr>rgba_r = 100, rgba_g = 100, rgba_b = 104, rgba_a = 1\<rparr> ''flip'') ''flip'')) = 0
   \<and> \<bar>hsl_l (rgbaToHsl (toDark (toDark \<lparr>rgba_r = 100, rgba_g = 100, rgba_b = 104, rgba_a = 1\<rparr> ''flip'') ''flip''))
        - hsl_l (rgbaToHsl \<lparr>rgba_r = 100, rgba_g = 100, rgba_b = 104, rgba_a = 1\<rparr>)\<bar> \<le> 1 / 510
   \<and> hsl_s (rgbaToHsl \<lparr>rgba_r = 20, rgba_g = 20, rgba_b = 20, rgba_a = 1\<rparr>) < 0.08
   \<and> hsl_l (rgbaToHsl \<lparr>rgba_r = 20, rgba_g = 20, rgba_b = 20, rgba_a = 1\<rparr>) < 0.08
   \<and> hsl_l (rgbaToHsl (toDark (toDark \<lparr>rgba_r = 20, rgba_g = 20, rgba_b = 20, rgba_a = 1\<rparr> ''flip'') ''flip'')) = 20 / 255
   \<and> hsl_s (rgbaToHsl \<lparr>rgba_r = 255, rgba_g = 255, rgba_b = 255, rgba_a = 1\<rparr>) < 0.08
   \<and> 0.92 < hsl_l (rgbaToHsl \<lparr>rgba_r = 255, rgba_g = 255, rgba_b = 255, rgba_a = 1\<rparr>)
   \<and> hsl_l (rgbaToHsl (toDark (toDark \<lparr>rgba_r = 255, rgba_g = 255, rgba_b = 255, rgba_a = 1\<rparr> ''flip'') ''flip'')) = 235 / 255"
proof -
  have h: "rgbaToHsl \<lparr>rgba_r = 100, rgba_g = 100, rgba_b = 104, rgba_a = 1\<rparr>
           = \<lparr>hsl_h = 240, hsl_s = 1 / 51, hsl_l = 2 / 5, hsl_a = 1\<rparr>"
    by (simp add: rgbaToHsl_def Let_def)
  have s: "hsl_s (rgbaToHsl \<lparr>rgba_r = 100, rgba_g = 100, rgba_b = 104, rgba_a = 1\<rparr>) < 0.08"
    unfolding h by simp
  have l: "0.08 \<le> hsl_l (rgbaToHsl \<lparr>rgba_r = 100, rgba_g = 100, rgba_b = 104, rgba_a = 1\<rparr>)"
     "hsl_l (rgbaToHsl \<lparr>rgba_r = 100, rgba_g = 100, rgba_b = 104, rgba_a = 1\<rparr>) \<le> 0.92"
    unfolding h by simp_all
  have sd: "hsl_s (rgbaToHsl \<lparr>rgba_r = 20, rgba_g = 20, rgba_b = 20, rgba_a = 1\<rparr>) < 0.08"
    and ld: "hsl_l (rgbaToHsl \<lparr>rgba_r = 20, rgba_g = 20, rgba_b = 20, rgba_a = 1\<rparr>) < 0.08"
    by (simp_all add: rgbaToHsl_gray)
  have sw: "hsl_s (rgbaToHsl \<lparr>rgba_r = 255, rgba_g = 255, rgba_b = 255, rgba_a = 1\<rparr>) < 0.08"
    and lw: "0.92 < hsl_l (rgbaToHsl \<lparr>rgba_r = 255, rgba_g = 255, rgba_b = 255, rgba_a = 1\<rparr>)"
    by (simp_all add: rgbaToHsl_gray)
  from flip_twice_neutral[OF s] l
  have 1: "hsl_s (rgbaToHsl (toDark \<lparr>rgba_r = 100, rgba_g = 100, rgba_b = 104, rgba_a = 1\<rparr> ''flip'')) = 0"
    "hsl_s (rgbaToHsl (toDark (toDark \<lparr>rgba_r = 100, rgba_g = 100, rgba_b = 104, rgba_a = 1\<rparr> ''flip'') ''flip'')) = 0"
    "\<bar>hsl_l (rgbaToHsl (toDark (toDark \<lparr>rgba_r = 100, rgba_g = 100, rgba_b = 104, rgba_a = 1\<rparr> ''flip'') ''flip''))
        - hsl_l (rgbaToHsl \<lparr>rgba_r = 100, rgba_g = 100, rgba_b = 104, rgba_a = 1\<rparr>)\<bar> \<le> 1 / 510"
    by blast+
  from flip_twice_neutral[OF sd] ld
  have 2: "hsl_l (rgbaToHsl (toDark (toDark \<lparr>rgba_r = 20, rgba_g = 20, rgba_b = 20, rgba_a = 1\<rparr> ''flip'') ''flip'')) = 20 / 255"
    by blast
  from flip_twice_neutral[OF sw] lw
  have 3: "hsl_l (rgbaToHsl (toDark (toDark \<lparr>rgba_r = 255, rgba_g = 255, rgba_b = 255, rgba_a = 1\<rparr> ''flip'') ''flip'')) = 235 / 255"
    by blast
  from s l sd ld sw lw 1 2 3 show ?thesis by blast
qed


text \<open>
  Claim C4 as stated fails for black: its saturation is 0 and its lightness is 0; the first
  flip clamps the lightness to 0.92 (level 235), the second clamps it to 0.08 (level 20),
  and the lightness after two flips is 20/255 = 4/51.
\<close>

theorem flip_twice_black_counterexample:
  "hsl_s (rgbaToHsl \<lparr>rgba_r = 0, rgba_g = 0, rgba_b = 0, rgba_a = 1\<rparr>) < 0.08
   \<and> hsl_l (rgbaToHsl \<lparr>rgba_r = 0, rgba_g = 0, rgba_b = 0, rgba_a = 1\<rparr>) = 0
   \<and> hsl_l (rgbaToHsl (toDark (toDark \<lparr>rgba_r = 0, rgba_g = 0, rgba_b = 0, rgba_a = 1\<rparr> ''flip'') ''flip'')) = 4 / 51"
proof -
  have h: "rgbaToHsl \<lparr>rgba_r = 0, rgba_g = 0, rgba_b = 0, rgba_a = 1\<rparr>
           = \<lparr>hsl_h = 0, hsl_s = 0, hsl_l = 0, hsl_a = 1\<rparr>"
    by (simp add: rgbaToHsl_gray)
  have s: "hsl_s (rgbaToHsl \<lparr>rgba_r = 0, rgba_g = 0, rgba_b = 0, rgba_a = 1\<rparr>) < 0.08"
    unfolding h by simp
  have f1: "flipLevel 0 = 235" by (simp add: flipLevel_def clamp_def jsRound_def)
  have c1: "toDark \<lparr>rgba_r = 0, rgba_g = 0, rgba_b = 0, rgba_a = 1\<rparr> ''flip''
            = \<lparr>rgba_r = 235, rgba_g = 235, rgba_b = 235, rgba_a = 1\<rparr>"
    using toDark_flip_neutral[OF s, of "''flip''"] unfolding h by (simp add: f1 clamp_def)
  have h1: "rgbaToHsl \<lparr>rgba_r = 235, rgba_g = 235, rgba_b = 235, rgba_a = 1\<rparr>
           = \<lparr>hsl_h = 0, hsl_s = 0, hsl_l = 235 / 255, hsl_a = 1\<rparr>"
    by (simp add: rgbaToHsl_gray)
  have s1: "hsl_s (rgbaToHsl \<lparr>rgba_r = 235, rgba_g = 235, rgba_b = 235, rgba_a = 1\<rparr>) < 0.08"
    unfolding h1 by simp
  have f2: "flipLevel (47 / 51) = 20" by (simp add: flipLevel_def clamp_def jsRound_def)
  have c2: "toDark \<lparr>rgba_r = 235, rgba_g = 235, rgba_b = 235, rgba_a = 1\<rparr> ''flip''
            = \<lparr>rgba_r = 20, rgba_g = 20, rgba_b = 20, rgba_a = 1\<rparr>"
    using toDark_flip_neutral[OF s1, of "''flip''"] unfolding h1 by (simp add: f2 clamp_def)
  show ?thesis unfolding c1 c2 by (simp add: rgbaToHsl_gray)
qed


text \<open>
  Claim C10. A mode string other than \<^verbatim>\<open>invert\<close> and \<^verbatim>\<open>tone\<close> selects the
  lightness flip: the mode is compared with the two names and never validated, and
  \<^verbatim>\<open>toDark\<close> is a total function, so an unknown or empty mode raises nothing.
\<close>

theorem toDark_default_is_flip:
  assumes "mode \<noteq> ''invert''" "mode \<noteq> ''tone''"
  shows "toDark c mode = toDark c ''flip''
       \<and> toDark c mode =
           clampRgb (hslToRgba
             (let x = rgbaToHsl c; out = x\<lparr>hsl_l := clamp (1 - hsl_l x) 0.08 0.92\<rparr>
              in if hsl_s x < 0.08 then out\<lparr>hsl_s := 0\<rparr> else out))"
  using assms by (simp add: toDark_def Let_def)

theorem toDark_default_is_flip_witness:
  "''sepia'' \<noteq> ''invert'' \<and> ''sepia'' \<noteq> ''tone''
   \<and> toDark \<lparr>rgba_r = 17, rgba_g = 17, rgba_b = 17, rgba_a = 1\<rparr> ''sepia''
     = toDark \<lparr>rgba_r = 17, rgba_g = 17, rgba_b = 17, rgba_a = 1\<rparr> ''flip''
   \<and> [] \<noteq> ''invert'' \<and> [] \<noteq> ''tone''
   \<and> toDark \<lparr>rgba_r = 17, rgba_g = 17, rgba_b = 17, rgba_a = 1\<rparr> []
     = toDark \<lparr>rgba_r = 17, rgba_g = 17, rgba_b = 17, rgba_a = 1\<rparr> ''flip''"
  using toDark_default_is_flip[of "''sepia''" "\<lparr>rgba_r = 17, rgba_g = 17, rgba_b = 17, rgba_a = 1\<rparr>"]
        toDark_default_is_flip[of "[]" "\<lparr>rgba_r = 17, rgba_g = 17, rgba_b = 17, rgba_a = 1\<rparr>"]
  by simp
section \<open>Text of numbers and units\<close>

text \<open>
  Strings are lists of characters. The regular expressions of the script that the claims
  depend on are written as scanners: each returns what the expression matches at the
  start of its input. The expressions for numbers and units backtrack, but a unit (or the
  end of the input) can follow a number at one place only, after its longest form, so a
  scanner that takes the longest number decides the same matches.
\<close>

definition digitVal :: "char \<Rightarrow> nat option" where
  \<comment> \<open>the value of a decimal digit\<close>
  "digitVal c = map_of (zip ''0123456789'' [0, 1, 2, 3, 4, 5, 6, 7, 8, 9]) c"

definition isDigit :: "char \<Rightarrow> bool" where
  \<comment> \<open>the class \<^verbatim>\<open>\d\<close>\<close>
  "isDigit c = (digitVal c \<noteq> None)"

definition digitChar :: "nat \<Rightarrow> char" where
  \<comment> \<open>the character of a digit below ten\<close>
  "digitChar d = ''0123456789'' ! d"

fun showNat :: "nat \<Rightarrow> string" where
  \<comment> \<open>the decimal text of a non-negative integer, as a template literal prints it\<close>
  "showNat n = (if n < 10 then [digitChar n] else showNat (n div 10) @ [digitChar (n mod 10)])"

declare showNat.simps [simp del]

definition digitsVal :: "string \<Rightarrow> nat" where
  \<comment> \<open>the value of a run of digits\<close>
  "digitsVal ds = foldl (\<lambda>acc c. 10 * acc + (case digitVal c of Some d \<Rightarrow> d | None \<Rightarrow> 0)) 0 ds"

definition toLowerChar :: "char \<Rightarrow> char" where
  "toLowerChar c =
     (case map_of (zip ''ABCDEFGHIJKLMNOPQRSTUVWXYZ'' ''abcdefghijklmnopqrstuvwxyz'') c of
        Some d \<Rightarrow> d
      | None \<Rightarrow> c)"

definition isWordChar :: "char \<Rightarrow> bool" where
  \<comment> \<open>the class \<^verbatim>\<open>\w\<close>: letters, digits and the underscore\<close>
  "isWordChar c =
     (isDigit c \<or> c = CHR ''_'' \<or> toLowerChar c \<in> set ''abcdefghijklmnopqrstuvwxyz'')"

definition wordBoundary :: "char \<Rightarrow> string \<Rightarrow> bool" where
  \<comment> \<open>\<^verbatim>\<open>\b\<close> between the character just matched and the rest of the input\<close>
  "wordBoundary c rest =
     (isWordChar c \<noteq> (case rest of [] \<Rightarrow> False | d # _ \<Rightarrow> isWordChar d))"

definition numPrefix :: "string \<Rightarrow> (string \<times> string) option" where
  \<comment> \<open>\<^verbatim>\<open>-?\d*\.?\d+\<close> at the start of the input: the text of the number and the rest\<close>
  "numPrefix s =
     (let sgn = (case s of [] \<Rightarrow> [] | c # _ \<Rightarrow> if c = CHR ''-'' then [c] else []);
          s1 = drop (length sgn) s;
          d1 = takeWhile isDigit s1;
          s2 = dropWhile isDigit s1
      in case s2 of
           [] \<Rightarrow> if d1 \<noteq> [] then Some (sgn @ d1, []) else None
         | c # s3 \<Rightarrow>
             if c = CHR ''.'' \<and> takeWhile isDigit s3 \<noteq> []
             then Some (sgn @ d1 @ [c] @ takeWhile isDigit s3, dropWhile isDigit s3)
             else if d1 \<noteq> [] then Some (sgn @ d1, s2)
             else None)"

definition parseNum :: "string \<Rightarrow> real" where
  \<comment> \<open>\<^verbatim>\<open>parseFloat\<close> on a text that \<^verbatim>\<open>-?\d*\.?\d+\<close> matched\<close>
  "parseNum t =
     (let neg = (case t of [] \<Rightarrow> False | c # _ \<Rightarrow> c = CHR ''-'');
          u = (if neg then drop 1 t else t);
          ip = takeWhile isDigit u;
          fp = drop 1 (dropWhile isDigit u);
          v = real (digitsVal ip) + real (digitsVal fp) / 10 ^ length fp
      in if neg then - v else v)"

fun unitPrefix :: "bool \<Rightarrow> string list \<Rightarrow> string \<Rightarrow> (string \<times> string) option" where
  \<comment> \<open>an alternation of lower-case words at the start of the input, tried in order;
      the flag is the \<^verbatim>\<open>i\<close> flag of the expression\<close>
  "unitPrefix ci [] s = None"
| "unitPrefix ci (u # us) s =
     (let t = take (length u) s
      in if (if ci then map toLowerChar t else t) = u then Some (t, drop (length u) s)
         else unitPrefix ci us s)"

definition matchLen :: "bool \<Rightarrow> string list \<Rightarrow> string \<Rightarrow> (string \<times> string) option" where
  \<comment> \<open>the anchored expressions \<^verbatim>\<open>^(-?\d*\.?\d+)(u1|u2|...)$\<close>: the two groups\<close>
  "matchLen ci units s =
     (case numPrefix s of
        None \<Rightarrow> None
      | Some (num, rest) \<Rightarrow>
          (case unitPrefix ci units rest of
             None \<Rightarrow> None
           | Some (u, rest') \<Rightarrow> if rest' = [] then Some (num, u) else None))"

subsection \<open>Printing a number\<close>

datatype jsnum = Fin real | PosInf | NegInf | NaN

definition jsDiv :: "real \<Rightarrow> real \<Rightarrow> jsnum" where
  \<comment> \<open>\<^verbatim>\<open>x / y\<close> with the division by zero written out\<close>
  "jsDiv x y =
     (if y \<noteq> 0 then Fin (x / y)
      else if 0 < x then PosInf else if x < 0 then NegInf else NaN)"

definition jsScale :: "jsnum \<Rightarrow> real \<Rightarrow> jsnum" where
  \<comment> \<open>\<^verbatim>\<open>n * k\<close> for a positive constant \<open>k\<close>\<close>
  "jsScale n k = (case n of Fin x \<Rightarrow> Fin (x * k) | _ \<Rightarrow> n)"

definition padTo :: "nat \<Rightarrow> nat \<Rightarrow> string" where
  \<comment> \<open>the decimal text of \<open>n\<close> with zeros in front, up to \<open>p\<close> digits\<close>
  "padTo p n = replicate (p - length (showNat n)) (CHR ''0'') @ showNat n"

definition numStrFixed :: "nat \<Rightarrow> jsnum \<Rightarrow> string" where
  \<comment> \<open>\<^verbatim>\<open>String(+n.toFixed(p))\<close>: the nearest multiple of \<open>10\<^sup>-\<^sup>p\<close> (a tie away from
      zero), printed without trailing zeros; for magnitudes below \<open>10\<^sup>2\<^sup>1\<close>, where
      JavaScript prints plain decimal digits\<close>
  "numStrFixed p n =
     (case n of
        PosInf \<Rightarrow> ''Infinity''
      | NegInf \<Rightarrow> ''-Infinity''
      | NaN \<Rightarrow> ''NaN''
      | Fin x \<Rightarrow>
          (let k = nat \<lfloor>\<bar>x\<bar> * 10 ^ p + 1 / 2\<rfloor>;
               ip = k div 10 ^ p;
               fp = k mod 10 ^ p
           in (if x < 0 \<and> k \<noteq> 0 then ''-'' else [])
              @ showNat ip
              @ (if fp = 0 then []
                 else CHR ''.'' # rev (dropWhile (\<lambda>c. c = CHR ''0'') (rev (padTo p fp))))))"

definition stripZero :: "string \<Rightarrow> string" where
  \<comment> \<open>the two replacements \<^verbatim>\<open>/(\.\d*?[1-9])0+$/\<close> to \<^verbatim>\<open>$1\<close> and
      \<^verbatim>\<open>/\.0+$/\<close> to the empty text\<close>
  "stripZero x =
     (let r = rev x;
          z = takeWhile (\<lambda>c. c = CHR ''0'') r;
          k = dropWhile (\<lambda>c. c = CHR ''0'') r;
          y = (if z \<noteq> [] \<and> takeWhile isDigit k \<noteq> []
                  \<and> (case dropWhile isDigit k of [] \<Rightarrow> False | c # _ \<Rightarrow> c = CHR ''.'')
               then rev k else x);
          r' = rev y;
          z' = takeWhile (\<lambda>c. c = CHR ''0'') r';
          k' = dropWhile (\<lambda>c. c = CHR ''0'') r'
      in if z' \<noteq> [] \<and> (case k' of [] \<Rightarrow> False | c # _ \<Rightarrow> c = CHR ''.'')
         then rev (drop 1 k') else y)"

definition prettifyUnit :: "jsnum \<Rightarrow> string \<Rightarrow> string" where
  "prettifyUnit n unit = stripZero (numStrFixed 4 n) @ unit"

section \<open>Unit conversion\<close>

record opts =
  rootPx :: real
  contextPx :: real
  vwPx :: real
  vhPx :: real
  percentBase :: real
  chPx :: real

definition convUnits :: "string list" where
  \<comment> \<open>the alternation \<^verbatim>\<open>px|rem|em|vh|vw|%|ch\<close>\<close>
  "convUnits = [''px'', ''rem'', ''em'', ''vh'', ''vw'', ''%'', ''ch'']"

definition convertLengthUnitToken :: "string \<Rightarrow> string \<Rightarrow> string \<Rightarrow> opts \<Rightarrow> string" where
  "convertLengthUnitToken token from to os =
     (case matchLen True convUnits token of
        None \<Rightarrow> token
      | Some (num, u) \<Rightarrow>
          (let val = parseNum num;
               unit = map toLowerChar u
           in if unit \<noteq> from then token
              else
                (case (if from = ''px'' then Some val
                       else if from = ''rem'' then Some (val * rootPx os)
                       else if from = ''em'' then Some (val * contextPx os)
                       else if from = ''vh'' then Some ((val * vhPx os) / 100)
                       else if from = ''vw'' then Some ((val * vwPx os) / 100)
                       else if from = ''%'' then Some ((val * percentBase os) / 100)
                       else if from = ''ch'' then Some (val * chPx os)
                       else None) of
                   None \<Rightarrow> token
                 | Some px \<Rightarrow>
                     (case (if to = ''px'' then Some (Fin px)
                            else if to = ''rem'' then Some (jsDiv px (rootPx os))
                            else if to = ''em'' then Some (jsDiv px (contextPx os))
                            else if to = ''vh'' then Some (jsScale (jsDiv px (vhPx os)) 100)
                            else if to = ''vw'' then Some (jsScale (jsDiv px (vwPx os)) 100)
                            else if to = ''%'' then Some (jsScale (jsDiv px (percentBase os)) 100)
                            else if to = ''ch'' then Some (jsDiv px (chPx os))
                            else None) of
                        None \<Rightarrow> token
                      | Some out \<Rightarrow> prettifyUnit out to))))"

fun replaceMatches :: "(string \<Rightarrow> string option) \<Rightarrow> (string \<Rightarrow> string) \<Rightarrow> nat \<Rightarrow> string \<Rightarrow> string" where
  \<comment> \<open>\<^verbatim>\<open>text.replace(re, callback)\<close> for a global expression whose matches are never
      empty: \<open>mt\<close> gives the match at the start of its input, and the counter is the
      number of characters of the last match still to be passed over\<close>
  "replaceMatches mt f k [] = []"
| "replaceMatches mt f (Suc k) (c # cs) = replaceMatches mt f k cs"
| "replaceMatches mt f 0 (c # cs) =
     (case mt (c # cs) of
        Some m \<Rightarrow> f m @ replaceMatches mt f (length m - 1) cs
      | None \<Rightarrow> c # replaceMatches mt f 0 cs)"

definition lengthTokenAt :: "string \<Rightarrow> string option" where
  \<comment> \<open>\<^verbatim>\<open>/(-?\d*\.?\d+)(px|rem|em|vh|vw|%|ch)\b/gi\<close> at the start of the input\<close>
  "lengthTokenAt s =
     (case numPrefix s of
        None \<Rightarrow> None
      | Some (num, r1) \<Rightarrow>
          (case unitPrefix True convUnits r1 of
             None \<Rightarrow> None
           | Some (u, r2) \<Rightarrow> if wordBoundary (last u) r2 then Some (num @ u) else None))"

fun fnBody :: "nat \<Rightarrow> string \<Rightarrow> nat option" where
  \<comment> \<open>the argument text of \<^verbatim>\<open>FN_RE\<close> after the opening parenthesis, at most two
      levels of inner parentheses deep: the number of characters up to and including
      the closing parenthesis\<close>
  "fnBody d [] = None"
| "fnBody d (c # cs) =
     (if c = CHR ''('' then (if d < 2 then map_option Suc (fnBody (Suc d) cs) else None)
      else if c = CHR '')'' then (if d = 0 then Some 1 else map_option Suc (fnBody (d - 1) cs))
      else map_option Suc (fnBody d cs))"

definition mathFnAt :: "string \<Rightarrow> string option" where
  \<comment> \<open>\<^verbatim>\<open>FN_RE\<close> at the start of the input\<close>
  "mathFnAt s =
     (case unitPrefix True [''calc'', ''min'', ''max'', ''clamp''] s of
        None \<Rightarrow> None
      | Some (nm, r) \<Rightarrow>
          (case r of
             [] \<Rightarrow> None
           | c # r' \<Rightarrow>
               if c = CHR ''('' then
                 (case fnBody 0 r' of
                    None \<Rightarrow> None
                  | Some n \<Rightarrow> Some (take (length nm + 1 + n) s))
               else None))"

definition convertPairs :: "(string \<times> string) list \<Rightarrow> opts \<Rightarrow> string \<Rightarrow> string" where
  \<comment> \<open>the callback of both replacements: the loop over the pairs\<close>
  "convertPairs pairs os m =
     foldl (\<lambda>out (from, to). convertLengthUnitToken out from to os) m pairs"

definition convertUnitsInFunctions :: "string \<Rightarrow> (string \<times> string) list \<Rightarrow> opts \<Rightarrow> string" where
  "convertUnitsInFunctions value pairs os =
     replaceMatches mathFnAt
       (\<lambda>fn. replaceMatches lengthTokenAt (convertPairs pairs os) 0 fn) 0 value"

definition convertUnitsInValue :: "string \<Rightarrow> (string \<times> string) list \<Rightarrow> opts \<Rightarrow> string" where
  "convertUnitsInValue value pairs os =
     (let withFns = convertUnitsInFunctions value pairs os
      in replaceMatches lengthTokenAt (convertPairs pairs os) 0 withFns)"

definition defaultOpts :: opts where
  \<comment> \<open>the defaults of the options parameter of \<^verbatim>\<open>convertLengthUnitToken\<close> and of the flags\<close>
  "defaultOpts = \<lparr>rootPx = 16, contextPx = 16, vwPx = 100, vhPx = 100, percentBase = 100, chPx = 1\<rparr>"

lemmas eval_defs =
  isDigit_def digitVal_def digitsVal_def numPrefix_def parseNum_def matchLen_def Let_def
  toLowerChar_def isWordChar_def wordBoundary_def convUnits_def
  prettifyUnit_def jsDiv_def jsScale_def numStrFixed_def stripZero_def padTo_def
  showNat.simps digitChar_def convertLengthUnitToken_def lengthTokenAt_def mathFnAt_def
  convertPairs_def jsRem_def

subsection \<open>The scanners and the replacement\<close>

lemma unitPrefix_split:
  "unitPrefix ci us s = Some (t, r) \<Longrightarrow> s = t @ r \<and> (if ci then map toLowerChar t else t) \<in> set us"
proof (induction us)
  case Nil
  then show ?case by simp
next
  case (Cons u us)
  show ?case
  proof (cases "(if ci then map toLowerChar (take (length u) s) else take (length u) s) = u")
    case True
    with Cons.prems have "t = take (length u) s" "r = drop (length u) s"
      by (simp_all add: Let_def)
    with True show ?thesis by auto
  next
    case False
    with Cons.prems have "unitPrefix ci us s = Some (t, r)"
      by (simp add: Let_def)
    with Cons.IH show ?thesis by auto
  qed
qed

lemma mathFnAt_paren: "mathFnAt s = Some m \<Longrightarrow> CHR ''('' \<in> set s"
proof -
  assume a: "mathFnAt s = Some m"
  then obtain nm r where u: "unitPrefix True [''calc'', ''min'', ''max'', ''clamp''] s = Some (nm, r)"
    by (auto simp: mathFnAt_def split: option.splits)
  with a obtain r' where "r = CHR ''('' # r'"
    by (auto simp: mathFnAt_def split: option.splits list.splits if_splits)
  with unitPrefix_split[OF u] show ?thesis by auto
qed

lemma replaceMatches_mathFn_id:
  "CHR ''('' \<notin> set s \<Longrightarrow> replaceMatches mathFnAt f 0 s = s"
proof (induction s)
  case Nil
  then show ?case by simp
next
  case (Cons c cs)
  have "mathFnAt (c # cs) = None"
  proof (cases "mathFnAt (c # cs)")
    case (Some m)
    from mathFnAt_paren[OF this] Cons.prems show ?thesis by simp
  qed simp
  moreover have "replaceMatches mathFnAt f 0 cs = cs"
    using Cons by simp
  ultimately show ?case by simp
qed

lemma replaceMatches_skip_all: "length s \<le> k \<Longrightarrow> replaceMatches mt f k s = []"
proof (induction s arbitrary: k)
  case Nil
  then show ?case by simp
next
  case (Cons c cs)
  then obtain j where "k = Suc j" "length cs \<le> j" by (cases k) auto
  with Cons.IH show ?case by simp
qed

lemma replaceMatches_whole:
  assumes "mt s = Some s" "s \<noteq> []"
  shows "replaceMatches mt f 0 s = f s"
proof -
  from assms(2) obtain c cs where s: "s = c # cs" by (cases s) auto
  have "replaceMatches mt f (length (c # cs) - 1) cs = []"
    by (rule replaceMatches_skip_all) simp
  with assms(1) show ?thesis unfolding s by simp
qed

lemma isDigit_not_paren: "isDigit c \<Longrightarrow> c \<noteq> CHR ''(''"
  by (auto simp: isDigit_def digitVal_def)

lemma numPrefix_chars:
  assumes "numPrefix s = Some (num, r)"
  shows "CHR ''('' \<notin> set num"
proof -
  define sgn where "sgn = (case s of [] \<Rightarrow> [] | c # _ \<Rightarrow> if c = CHR ''-'' then [c] else [])"
  have sg: "CHR ''('' \<notin> set sgn"
    by (auto simp: sgn_def split: list.splits)
  have dg: "CHR ''('' \<notin> set (takeWhile isDigit u)" for u
    using isDigit_not_paren by (auto dest: set_takeWhileD)
  from assms have "num = sgn @ takeWhile isDigit (drop (length sgn) s)
      \<or> (\<exists>s3. num = sgn @ takeWhile isDigit (drop (length sgn) s) @ [CHR ''.''] @ takeWhile isDigit s3)"
    unfolding numPrefix_def sgn_def[symmetric] Let_def
    by (auto split: list.splits if_splits)
  with sg dg show ?thesis by auto
qed

lemma toLowerChar_paren: "toLowerChar c = CHR ''('' \<Longrightarrow> c = CHR ''(''"
  by (simp add: toLowerChar_def split: if_splits)

lemma lengthTokenAt_no_paren:
  assumes "lengthTokenAt s = Some t"
  shows "CHR ''('' \<notin> set t \<and> t \<noteq> []"
proof -
  from assms obtain num r1 u r2 where
    n: "numPrefix s = Some (num, r1)" and u: "unitPrefix True convUnits r1 = Some (u, r2)"
    and t: "t = num @ u"
    by (auto simp: lengthTokenAt_def split: option.splits if_splits)
  from unitPrefix_split[OF u] have m: "map toLowerChar u \<in> set convUnits" by simp
  have "CHR ''('' \<notin> set u"
  proof
    assume "CHR ''('' \<in> set u"
    then have "toLowerChar (CHR ''('') \<in> set (map toLowerChar u)" by (simp add: image_iff) blast
    moreover have "toLowerChar (CHR ''('') = CHR ''(''" by (simp add: toLowerChar_def)
    ultimately show False using m by (auto simp: convUnits_def)
  qed
  moreover from m have "u \<noteq> []" by (auto simp: convUnits_def)
  ultimately show ?thesis using numPrefix_chars[OF n] t by simp
qed


text \<open>
  Claim C5. With the pairs px to rem and rem to em, a root of 16 and a context of 16, the
  value \<^verbatim>\<open>32px\<close> becomes \<^verbatim>\<open>2em\<close>. In general a value that is one length token (the
  token expression matches all of it) is replaced by the result of the loop over the
  pairs, each step taking the text the step before returned; and a step leaves its text
  unchanged when the unit of that text is not the step's from unit.
\<close>

theorem chained_conversion:
  "convertUnitsInValue ''32px'' [(''px'', ''rem''), (''rem'', ''em'')]
      \<lparr>rootPx = 16, contextPx = 16, vwPx = 100, vhPx = 100, percentBase = 100, chPx = 1\<rparr> = ''2em''
   \<and> (lengthTokenAt t = Some t \<longrightarrow>
        convertUnitsInValue t pairs os
          = foldl (\<lambda>out (from, to). convertLengthUnitToken out from to os) t pairs)
   \<and> (matchLen True convUnits out = Some (num, u) \<and> map toLowerChar u \<noteq> from \<longrightarrow>
        convertLengthUnitToken out from to os = out)"
proof (intro conjI impI)
  show "convertUnitsInValue ''32px'' [(''px'', ''rem''), (''rem'', ''em'')]
      \<lparr>rootPx = 16, contextPx = 16, vwPx = 100, vhPx = 100, percentBase = 100, chPx = 1\<rparr> = ''2em''"
    by (simp add: convertUnitsInValue_def convertUnitsInFunctions_def eval_defs)
next
  assume a: "lengthTokenAt t = Some t"
  from lengthTokenAt_no_paren[OF a] have p: "CHR ''('' \<notin> set t" and ne: "t \<noteq> []" by simp_all
  have "convertUnitsInFunctions t pairs os = t"
    unfolding convertUnitsInFunctions_def by (rule replaceMatches_mathFn_id[OF p])
  then have "convertUnitsInValue t pairs os = replaceMatches lengthTokenAt (convertPairs pairs os) 0 t"
    by (simp add: convertUnitsInValue_def)
  also have "\<dots> = convertPairs pairs os t"
    by (rule replaceMatches_whole[of lengthTokenAt t, OF a ne])
  finally show "convertUnitsInValue t pairs os
          = foldl (\<lambda>out (from, to). convertLengthUnitToken out from to os) t pairs"
    by (simp add: convertPairs_def)
next
  assume "matchLen True convUnits out = Some (num, u) \<and> map toLowerChar u \<noteq> from"
  then show "convertLengthUnitToken out from to os = out"
    by (simp add: convertLengthUnitToken_def)
qed

theorem chained_conversion_witness:
  "lengthTokenAt ''1.5rem'' = Some ''1.5rem''
   \<and> convertUnitsInValue ''1.5rem'' [(''rem'', ''px''), (''px'', ''em'')] defaultOpts
       = foldl (\<lambda>out (from, to). convertLengthUnitToken out from to defaultOpts) ''1.5rem''
           [(''rem'', ''px''), (''px'', ''em'')]
   \<and> matchLen True convUnits ''24px'' = Some (''24'', ''px'') \<and> map toLowerChar ''px'' \<noteq> ''rem''
   \<and> convertLengthUnitToken ''24px'' ''rem'' ''px'' defaultOpts = ''24px''"
proof -
  have a: "lengthTokenAt ''1.5rem'' = Some ''1.5rem''" by (simp add: eval_defs)
  have b: "matchLen True convUnits ''24px'' = Some (''24'', ''px'')" by (simp add: eval_defs)
  have c: "map toLowerChar ''px'' \<noteq> ''rem''" by simp
  from chained_conversion[of "''1.5rem''" "[(''rem'', ''px''), (''px'', ''em'')]" defaultOpts
      "''24px''" "''24''" "''px''" "''rem''" "''px''"] a b c
  show ?thesis by blast
qed

text \<open>
  Claim C6, at its failing input. \<^verbatim>\<open>convertUnitsInValue\<close> first converts the tokens
  inside \<^verbatim>\<open>calc(...)\<close>, then runs the token replacement over the whole value, the
  function text included. With the pairs rem to em and px to rem, the token
  \<^verbatim>\<open>16px\<close> inside \<^verbatim>\<open>calc\<close> becomes \<^verbatim>\<open>1rem\<close> in the first pass and \<^verbatim>\<open>1em\<close> in the
  second, while the same token outside a function becomes \<^verbatim>\<open>1rem\<close>.
\<close>

theorem function_token_converted_twice:
  "convertUnitsInValue ''calc(16px)'' [(''rem'', ''em''), (''px'', ''rem'')] defaultOpts = ''calc(1em)''
   \<and> convertUnitsInValue ''16px'' [(''rem'', ''em''), (''px'', ''rem'')] defaultOpts = ''1rem''"
  by (simp add: convertUnitsInValue_def convertUnitsInFunctions_def eval_defs defaultOpts_def)


text \<open>The example of the claim itself holds: one pair, so the second pass changes nothing.\<close>

lemma function_aware_example:
  "convertUnitsInValue ''calc(10px + 1rem)'' [(''px'', ''rem'')] defaultOpts = ''calc(0.625rem + 1rem)''"
  by (simp add: convertUnitsInValue_def convertUnitsInFunctions_def eval_defs defaultOpts_def)

text \<open>
  Claim C7. \<^verbatim>\<open>convertLengthUnitToken\<close> returns its token unchanged when the text is
  not a number followed by a supported unit, or when its unit (in lower case) is not the
  from unit; it is a total function, so nothing is raised. The two examples of the claim
  follow.
\<close>

theorem convertLengthUnitToken_failure_policy:
  "((matchLen True convUnits token = None
      \<or> (\<exists>num u. matchLen True convUnits token = Some (num, u) \<and> map toLowerChar u \<noteq> from))
     \<longrightarrow> convertLengthUnitToken token from to os = token)
   \<and> convertLengthUnitToken ''10px'' ''rem'' ''px'' os = ''10px''
   \<and> (rootPx os = 16 \<longrightarrow> convertLengthUnitToken ''1rem'' ''rem'' ''px'' os = ''16px'')"
proof (intro conjI impI)
  assume "matchLen True convUnits token = None
      \<or> (\<exists>num u. matchLen True convUnits token = Some (num, u) \<and> map toLowerChar u \<noteq> from)"
  then show "convertLengthUnitToken token from to os = token"
    by (auto simp: convertLengthUnitToken_def)
next
  show "convertLengthUnitToken ''10px'' ''rem'' ''px'' os = ''10px''"
    by (simp add: eval_defs)
next
  assume "rootPx os = 16"
  then show "convertLengthUnitToken ''1rem'' ''rem'' ''px'' os = ''16px''"
    by (simp add: eval_defs)
qed

theorem convertLengthUnitToken_failure_policy_witness:
  "matchLen True convUnits ''solid'' = None
   \<and> convertLengthUnitToken ''solid'' ''px'' ''rem'' defaultOpts = ''solid''
   \<and> matchLen True convUnits ''10PX'' = Some (''10'', ''PX'') \<and> map toLowerChar ''PX'' \<noteq> ''rem''
   \<and> convertLengthUnitToken ''10PX'' ''rem'' ''px'' defaultOpts = ''10PX''
   \<and> rootPx defaultOpts = 16
   \<and> convertLengthUnitToken ''1rem'' ''rem'' ''px'' defaultOpts = ''16px''"
proof -
  have a: "matchLen True convUnits ''solid'' = None" by (simp add: eval_defs)
  have b: "matchLen True convUnits ''10PX'' = Some (''10'', ''PX'')" by (simp add: eval_defs)
  have c: "map toLowerChar ''PX'' \<noteq> ''rem''" by (simp add: eval_defs)
  have d: "rootPx defaultOpts = 16" by (simp add: defaultOpts_def)
  from convertLengthUnitToken_failure_policy[of "''solid''" "''px''" "''rem''" defaultOpts] a
  have 1: "convertLengthUnitToken ''solid'' ''px'' ''rem'' defaultOpts = ''solid''" by blast
  from convertLengthUnitToken_failure_policy[of "''10PX''" "''rem''" "''px''" defaultOpts] b c
  have 2: "convertLengthUnitToken ''10PX'' ''rem'' ''px'' defaultOpts = ''10PX''" by blast
  from convertLengthUnitToken_failure_policy[of "''solid''" "''px''" "''rem''" defaultOpts] d
  have 3: "convertLengthUnitToken ''1rem'' ''rem'' ''px'' defaultOpts = ''16px''" by blast
  from a b c d 1 2 3 show ?thesis by blast
qed


section \<open>Lengths for ordering and for emission\<close>

definition lenUnits :: "string list" where
  \<comment> \<open>the alternation \<^verbatim>\<open>px|rem|em|%|vh|vw\<close> of \<^verbatim>\<open>LENGTH_TOKEN_RE\<close> and of \<^verbatim>\<open>lenToPx\<close>\<close>
  "lenUnits = [''px'', ''rem'', ''em'', ''%'', ''vh'', ''vw'']"

definition lenToPx :: "real \<Rightarrow> real \<Rightarrow> string \<Rightarrow> real" where
  \<comment> \<open>the first two arguments are the globals \<^verbatim>\<open>ROOT_SIZE\<close> and \<^verbatim>\<open>CONTEXT_SIZE\<close>\<close>
  "lenToPx ROOT_SIZE CONTEXT_SIZE lit =
     (case matchLen False lenUnits lit of
        None \<Rightarrow> 0
      | Some (num, u) \<Rightarrow>
          (let n = parseNum num
           in if u = ''px'' then n
              else if u = ''rem'' then n * ROOT_SIZE
              else if u = ''em'' then n * CONTEXT_SIZE
              else n))"

definition preferRem :: "real \<Rightarrow> string \<Rightarrow> string" where
  "preferRem ROOT_SIZE lit =
     (case matchLen False [''px''] lit of
        None \<Rightarrow> lit
      | Some (num, u) \<Rightarrow>
          (let px = parseNum num
           in if jsRem px 4 = 0 then stripZero (numStrFixed 4 (jsDiv px ROOT_SIZE)) @ ''rem''
              else lit))"


section \<open>Category orders\<close>

fun insertBy :: "('a \<Rightarrow> 'a \<Rightarrow> real) \<Rightarrow> 'a \<Rightarrow> 'a list \<Rightarrow> 'a list" where
  "insertBy cmp x [] = [x]"
| "insertBy cmp x (y # ys) = (if cmp x y \<le> 0 then x # y # ys else y # insertBy cmp x ys)"

definition jsSort :: "('a \<Rightarrow> 'a \<Rightarrow> real) \<Rightarrow> 'a list \<Rightarrow> 'a list" where
  \<comment> \<open>\<^verbatim>\<open>Array.prototype.sort\<close> with a comparator: a stable sort, so an element stays in
      front of the later elements it compares equal to\<close>
  "jsSort cmp xs = foldr (insertBy cmp) xs []"

definition cmpCountPxDesc :: "real \<Rightarrow> real \<Rightarrow> string \<times> nat \<Rightarrow> string \<times> nat \<Rightarrow> real" where
  \<comment> \<open>\<^verbatim>\<open>(a, b) => b[1].count - a[1].count || lenToPx(b[0]) - lenToPx(a[0])\<close>\<close>
  "cmpCountPxDesc ROOT_SIZE CONTEXT_SIZE x y =
     (let d = real (snd y) - real (snd x)
      in if d \<noteq> 0 then d
         else lenToPx ROOT_SIZE CONTEXT_SIZE (fst y) - lenToPx ROOT_SIZE CONTEXT_SIZE (fst x))"

definition cmpCountPxAsc :: "real \<Rightarrow> real \<Rightarrow> string \<times> nat \<Rightarrow> string \<times> nat \<Rightarrow> real" where
  \<comment> \<open>\<^verbatim>\<open>(a, b) => b[1].count - a[1].count || lenToPx(a[0]) - lenToPx(b[0])\<close>\<close>
  "cmpCountPxAsc ROOT_SIZE CONTEXT_SIZE x y =
     (let d = real (snd y) - real (snd x)
      in if d \<noteq> 0 then d
         else lenToPx ROOT_SIZE CONTEXT_SIZE (fst x) - lenToPx ROOT_SIZE CONTEXT_SIZE (fst y))"

definition spacingOrder :: "string list \<Rightarrow> real \<Rightarrow> real \<Rightarrow> (string \<times> nat) list \<Rightarrow> string list" where
  "spacingOrder features ROOT_SIZE CONTEXT_SIZE byLength =
     (if ''spacing'' \<in> set features
      then map fst (jsSort (cmpCountPxDesc ROOT_SIZE CONTEXT_SIZE) byLength)
      else [])"

definition borderWidthOrder :: "string list \<Rightarrow> real \<Rightarrow> real \<Rightarrow> (string \<times> nat) list \<Rightarrow> string list" where
  "borderWidthOrder features ROOT_SIZE CONTEXT_SIZE byBorderWidth =
     (if ''borders'' \<in> set features
      then map fst (jsSort (cmpCountPxAsc ROOT_SIZE CONTEXT_SIZE) byBorderWidth)
      else [])"

definition radiusOrder :: "string list \<Rightarrow> real \<Rightarrow> real \<Rightarrow> (string \<times> nat) list \<Rightarrow> string list" where
  "radiusOrder features ROOT_SIZE CONTEXT_SIZE byRadius =
     (if ''radius'' \<in> set features
      then map fst (jsSort (cmpCountPxAsc ROOT_SIZE CONTEXT_SIZE) byRadius)
      else [])"

definition countThenPxDesc :: "real \<Rightarrow> real \<Rightarrow> string \<times> nat \<Rightarrow> string \<times> nat \<Rightarrow> bool" where
  \<comment> \<open>the order of the claim: a higher count first, and on equal counts a larger (or equal)
      pixel size first\<close>
  "countThenPxDesc ROOT_SIZE CONTEXT_SIZE x y =
     (snd y < snd x
      \<or> (snd x = snd y \<and> lenToPx ROOT_SIZE CONTEXT_SIZE (fst y) \<le> lenToPx ROOT_SIZE CONTEXT_SIZE (fst x)))"

definition countThenPxAsc :: "real \<Rightarrow> real \<Rightarrow> string \<times> nat \<Rightarrow> string \<times> nat \<Rightarrow> bool" where
  \<comment> \<open>a higher count first, and on equal counts a smaller (or equal) pixel size first\<close>
  "countThenPxAsc ROOT_SIZE CONTEXT_SIZE x y =
     (snd y < snd x
      \<or> (snd x = snd y \<and> lenToPx ROOT_SIZE CONTEXT_SIZE (fst x) \<le> lenToPx ROOT_SIZE CONTEXT_SIZE (fst y)))"

lemma mset_insertBy: "mset (insertBy cmp x ys) = add_mset x (mset ys)"
  by (induction ys) auto

lemma mset_jsSort: "mset (jsSort cmp xs) = mset xs"
  by (induction xs) (auto simp: jsSort_def mset_insertBy)

lemma set_insertBy: "set (insertBy cmp x ys) = insert x (set ys)"
  by (induction ys) auto

lemma sorted_insertBy:
  assumes tr: "\<And>u v w. cmp u v \<le> 0 \<Longrightarrow> cmp v w \<le> 0 \<Longrightarrow> cmp u w \<le> 0"
    and tot: "\<And>u v. cmp u v \<le> 0 \<or> cmp v u \<le> 0"
    and "sorted_wrt (\<lambda>u v. cmp u v \<le> 0) ys"
  shows "sorted_wrt (\<lambda>u v. cmp u v \<le> 0) (insertBy cmp x ys)"
  using assms(3)
proof (induction ys)
  case Nil
  then show ?case by simp
next
  case (Cons y ys)
  show ?case
  proof (cases "cmp x y \<le> 0")
    case True
    with Cons.prems tr show ?thesis by auto
  next
    case False
    with tot[of x y] have "cmp y x \<le> 0" by simp
    with False Cons show ?thesis by (auto simp: set_insertBy)
  qed
qed

lemma sorted_jsSort:
  assumes tr: "\<And>u v w. cmp u v \<le> 0 \<Longrightarrow> cmp v w \<le> 0 \<Longrightarrow> cmp u w \<le> 0"
    and tot: "\<And>u v. cmp u v \<le> 0 \<or> cmp v u \<le> 0"
  shows "sorted_wrt (\<lambda>u v. cmp u v \<le> 0) (jsSort cmp xs)"
proof (induction xs)
  case Nil
  then show ?case by (simp add: jsSort_def)
next
  case (Cons x xs)
  have "jsSort cmp (x # xs) = insertBy cmp x (jsSort cmp xs)" by (simp add: jsSort_def)
  with sorted_insertBy[of cmp, OF tr tot Cons] show ?case by simp
qed

lemma cmpCountPxDesc_le: "cmpCountPxDesc R C x y \<le> 0 \<longleftrightarrow> countThenPxDesc R C x y"
  by (auto simp: cmpCountPxDesc_def countThenPxDesc_def Let_def)

lemma cmpCountPxAsc_le: "cmpCountPxAsc R C x y \<le> 0 \<longleftrightarrow> countThenPxAsc R C x y"
  by (auto simp: cmpCountPxAsc_def countThenPxAsc_def Let_def)

lemma sorted_desc: "sorted_wrt (countThenPxDesc R C) (jsSort (cmpCountPxDesc R C) t)"
proof -
  have "sorted_wrt (\<lambda>u v. cmpCountPxDesc R C u v \<le> 0) (jsSort (cmpCountPxDesc R C) t)"
    by (rule sorted_jsSort) (auto simp: cmpCountPxDesc_le countThenPxDesc_def)
  then show ?thesis by (simp add: cmpCountPxDesc_le)
qed

lemma sorted_asc: "sorted_wrt (countThenPxAsc R C) (jsSort (cmpCountPxAsc R C) t)"
proof -
  have "sorted_wrt (\<lambda>u v. cmpCountPxAsc R C u v \<le> 0) (jsSort (cmpCountPxAsc R C) t)"
    by (rule sorted_jsSort) (auto simp: cmpCountPxAsc_le countThenPxAsc_def)
  then show ?thesis by (simp add: cmpCountPxAsc_le)
qed


text \<open>
  Claim C2, as amended. The spacing candidates are ordered by descending count, ties by
  descending pixel size (\<^verbatim>\<open>lenToPx\<close>). The border-width and radius candidates are
  ordered by descending count, ties by ascending pixel size: their comparators subtract
  the other way round. Each order is a rearrangement of its table; with its feature
  switched off the order is empty.
\<close>

theorem category_orders:
  "(''spacing'' \<in> set features \<longrightarrow>
      (\<exists>es. spacingOrder features R C byLength = map fst es
          \<and> mset es = mset byLength \<and> sorted_wrt (countThenPxDesc R C) es))
   \<and> (''borders'' \<in> set features \<longrightarrow>
      (\<exists>es. borderWidthOrder features R C byBorderWidth = map fst es
          \<and> mset es = mset byBorderWidth \<and> sorted_wrt (countThenPxAsc R C) es))
   \<and> (''radius'' \<in> set features \<longrightarrow>
      (\<exists>es. radiusOrder features R C byRadius = map fst es
          \<and> mset es = mset byRadius \<and> sorted_wrt (countThenPxAsc R C) es))"
proof (intro conjI impI)
  assume "''spacing'' \<in> set features"
  then have "spacingOrder features R C byLength = map fst (jsSort (cmpCountPxDesc R C) byLength)"
    by (simp add: spacingOrder_def)
  with mset_jsSort sorted_desc
  show "\<exists>es. spacingOrder features R C byLength = map fst es
          \<and> mset es = mset byLength \<and> sorted_wrt (countThenPxDesc R C) es"
    by blast
next
  assume "''borders'' \<in> set features"
  then have "borderWidthOrder features R C byBorderWidth = map fst (jsSort (cmpCountPxAsc R C) byBorderWidth)"
    by (simp add: borderWidthOrder_def)
  with mset_jsSort sorted_asc
  show "\<exists>es. borderWidthOrder features R C byBorderWidth = map fst es
          \<and> mset es = mset byBorderWidth \<and> sorted_wrt (countThenPxAsc R C) es"
    by blast
next
  assume "''radius'' \<in> set features"
  then have "radiusOrder features R C byRadius = map fst (jsSort (cmpCountPxAsc R C) byRadius)"
    by (simp add: radiusOrder_def)
  with mset_jsSort sorted_asc
  show "\<exists>es. radiusOrder features R C byRadius = map fst es
          \<and> mset es = mset byRadius \<and> sorted_wrt (countThenPxAsc R C) es"
    by blast
qed

lemmas order_defs = spacingOrder_def borderWidthOrder_def radiusOrder_def jsSort_def
  cmpCountPxDesc_def cmpCountPxAsc_def lenToPx_def lenUnits_def

theorem category_orders_witness:
  "''spacing'' \<in> set [''spacing'', ''borders'', ''radius'']
   \<and> (\<exists>es. spacingOrder [''spacing'', ''borders'', ''radius''] 16 16 [(''8px'', 1), (''4px'', 2), (''1rem'', 2)] = map fst es
          \<and> mset es = mset [(''8px'', 1), (''4px'', 2), (''1rem'', 2)] \<and> sorted_wrt (countThenPxDesc 16 16) es)
   \<and> ''borders'' \<in> set [''spacing'', ''borders'', ''radius'']
   \<and> (\<exists>es. borderWidthOrder [''spacing'', ''borders'', ''radius''] 16 16 [(''2px'', 1), (''1px'', 1), (''3px'', 4)] = map fst es
          \<and> mset es = mset [(''2px'', 1), (''1px'', 1), (''3px'', 4)] \<and> sorted_wrt (countThenPxAsc 16 16) es)
   \<and> ''radius'' \<in> set [''spacing'', ''borders'', ''radius'']
   \<and> (\<exists>es. radiusOrder [''spacing'', ''borders'', ''radius''] 16 16 [(''8px'', 1), (''4px'', 1)] = map fst es
          \<and> mset es = mset [(''8px'', 1), (''4px'', 1)] \<and> sorted_wrt (countThenPxAsc 16 16) es)"
proof -
  have f: "''spacing'' \<in> set [''spacing'', ''borders'', ''radius'']"
    "''borders'' \<in> set [''spacing'', ''borders'', ''radius'']"
    "''radius'' \<in> set [''spacing'', ''borders'', ''radius'']"
    by simp_all
  from category_orders[of "[''spacing'', ''borders'', ''radius'']" 16 16
      "[(''8px'', 1), (''4px'', 2), (''1rem'', 2)]" "[(''2px'', 1), (''1px'', 1), (''3px'', 4)]"
      "[(''8px'', 1), (''4px'', 1)]"] f
  show ?thesis by blast
qed


text \<open>
  Claim C2 as stated fails for border widths and radii: of two candidates with the same
  count the smaller comes first.
\<close>

theorem border_width_order_counterexample:
  "borderWidthOrder [''borders''] 16 16 [(''1px'', 1), (''2px'', 1)] = [''1px'', ''2px'']
   \<and> radiusOrder [''radius''] 16 16 [(''4px'', 1), (''8px'', 1)] = [''4px'', ''8px'']
   \<and> lenToPx 16 16 ''1px'' < lenToPx 16 16 ''2px''
   \<and> lenToPx 16 16 ''4px'' < lenToPx 16 16 ''8px''"
  by (simp add: order_defs eval_defs)

lemma spacing_example:
  "spacingOrder [''spacing''] 16 16 [(''8px'', 1), (''4px'', 2), (''1rem'', 2)] = [''1rem'', ''4px'', ''8px'']"
  by (simp add: order_defs eval_defs)


section \<open>Naming\<close>

text \<open>
  The loop of the name factory ends because the names it tries, \<^verbatim>\<open>name-2\<close>,
  \<^verbatim>\<open>name-3\<close> and so on, are all different and the set of used names is finite; the
  decimal text of a number determines the number.
\<close>

lemma digitVal_digitChar: "d < 10 \<Longrightarrow> digitVal (digitChar d) = Some d"
proof -
  assume "d < 10"
  then consider "d = 0" | "d = 1" | "d = 2" | "d = 3" | "d = 4" | "d = 5" | "d = 6" | "d = 7"
    | "d = 8" | "d = 9"
    by atomize_elim arith
  then show ?thesis
    by cases (simp_all add: digitVal_def digitChar_def)
qed

lemma digitsVal_snoc:
  "digitsVal (ds @ [c]) = 10 * digitsVal ds + (case digitVal c of Some d \<Rightarrow> d | None \<Rightarrow> 0)"
  by (simp add: digitsVal_def)

lemma digitsVal_showNat: "digitsVal (showNat n) = n"
proof (induction n rule: showNat.induct)
  case (1 n)
  show ?case
  proof (cases "n < 10")
    case True
    then show ?thesis
      by (subst showNat.simps) (simp add: digitsVal_def digitVal_digitChar)
  next
    case False
    then have "digitsVal (showNat n) = 10 * digitsVal (showNat (n div 10)) + n mod 10"
      by (subst showNat.simps) (simp add: digitsVal_snoc digitVal_digitChar)
    with 1 False show ?thesis by simp
  qed
qed

lemma showNat_inj: "showNat m = showNat n \<Longrightarrow> m = n"
  by (metis digitsVal_showNat)

lemma finite_suffix_numbers: "finite {k. name @ ''-'' @ showNat k \<in> set used}"
proof -
  have "inj (\<lambda>k. name @ ''-'' @ showNat k)"
    by (rule injI) (simp add: showNat_inj)
  from finite_vimageI[OF finite_set this, of used]
  show ?thesis by (simp add: vimage_def)
qed

definition litHash :: "(string \<Rightarrow> string) \<Rightarrow> string \<Rightarrow> string \<Rightarrow> string" where
  \<comment> \<open>the first argument is the MD5 digest in hexadecimal, a function of the crypto library\<close>
  "litHash md5hex lit prefix = ''--'' @ prefix @ ''-'' @ take 8 (md5hex lit)"

function uniqueName :: "string list \<Rightarrow> string \<Rightarrow> string \<Rightarrow> nat \<Rightarrow> string" where
  \<comment> \<open>the loop \<^verbatim>\<open>while (used.has(out)) out = `${name}-${n++}`\<close>, from the state \<open>(out, n)\<close>\<close>
  "uniqueName used name out n =
     (if out \<in> set used then uniqueName used name (name @ ''-'' @ showNat n) (Suc n) else out)"
  by pat_completeness auto
termination
proof (relation "measure (\<lambda>(used, name, out, n).
          card {k. n \<le> k \<and> name @ ''-'' @ showNat k \<in> set used}
          + (if out \<in> set used then 1 else 0))")
  show "wf (measure (\<lambda>(used, name, out, n).
          card {k. n \<le> k \<and> name @ ''-'' @ showNat k \<in> set used}
          + (if out \<in> set used then 1 else 0)))"
    by simp
next
  fix used :: "string list" and name out :: string and n :: nat
  assume "out \<in> set used"
  let ?A = "{k. n \<le> k \<and> name @ ''-'' @ showNat k \<in> set used}"
  let ?B = "{k. Suc n \<le> k \<and> name @ ''-'' @ showNat k \<in> set used}"
  have fin: "finite ?A"
    by (rule finite_subset[OF _ finite_suffix_numbers[of name used]]) auto
  have "card ?B + (if name @ ''-'' @ showNat n \<in> set used then 1 else 0) = card ?A"
  proof (cases "name @ ''-'' @ showNat n \<in> set used")
    case True
    then have "?A = insert n ?B" by (auto simp: Suc_le_eq le_less)
    moreover have "n \<notin> ?B" by simp
    moreover have "finite ?B" by (rule finite_subset[OF _ fin]) auto
    ultimately show ?thesis using True by simp
  next
    case False
    then have "?A = ?B"
      by (auto simp: Suc_le_eq le_less)
    with False show ?thesis by simp
  qed
  with \<open>out \<in> set used\<close>
  show "((used, name, name @ ''-'' @ showNat n, Suc n), (used, name, out, n))
        \<in> measure (\<lambda>(used, name, out, n).
          card {k. n \<le> k \<and> name @ ''-'' @ showNat k \<in> set used}
          + (if out \<in> set used then 1 else 0))"
    by simp
qed

declare uniqueName.simps [simp del]

definition nameCall :: "(string \<Rightarrow> string) \<Rightarrow> bool \<Rightarrow> string \<Rightarrow> string list \<Rightarrow> string \<Rightarrow> nat \<Rightarrow> string \<times> string list" where
  \<comment> \<open>one call \<^verbatim>\<open>(lit, i)\<close> of the function that \<^verbatim>\<open>makeNameFactory(prefix)\<close> returns, on the
      names \<open>used\<close> so far: the name, and the names used afterwards; \<open>STABLE\<close> is the global
      flag\<close>
  "nameCall md5hex STABLE prefix used lit i =
     (let name = (if STABLE then litHash md5hex lit prefix
                  else ''--'' @ prefix @ ''-'' @ showNat (i + 1));
          out = uniqueName used name name 2
      in (out, out # used))"

fun nameEach :: "(string \<Rightarrow> string) \<Rightarrow> bool \<Rightarrow> string \<Rightarrow> string list \<Rightarrow> nat \<Rightarrow> string list \<Rightarrow> (string \<times> string) list" where
  \<comment> \<open>\<^verbatim>\<open>order.map((v, i) => [v, name(v, i)])\<close> from index \<open>i\<close> on\<close>
  "nameEach md5hex STABLE prefix used i [] = []"
| "nameEach md5hex STABLE prefix used i (v # vs) =
     (let (out, used') = nameCall md5hex STABLE prefix used v i
      in (v, out) # nameEach md5hex STABLE prefix used' (Suc i) vs)"

definition makeNames :: "(string \<Rightarrow> string) \<Rightarrow> bool \<Rightarrow> string \<Rightarrow> string list \<Rightarrow> (string \<times> string) list" where
  \<comment> \<open>a fresh factory for the prefix, applied to a category's order: the entries of its
      name map\<close>
  "makeNames md5hex STABLE prefix order = nameEach md5hex STABLE prefix [] 0 order"

lemma uniqueName_fresh: "uniqueName used name out n \<notin> set used"
  by (induction used name out n rule: uniqueName.induct) (subst uniqueName.simps, simp)

lemma uniqueName_suffix:
  "out \<in> set used \<Longrightarrow>
   \<exists>k\<ge>n. uniqueName used name out n = name @ ''-'' @ showNat k
       \<and> (\<forall>j. n \<le> j \<and> j < k \<longrightarrow> name @ ''-'' @ showNat j \<in> set used)"
proof (induction used name out n rule: uniqueName.induct)
  case (1 used name out n)
  let ?o = "name @ ''-'' @ showNat n"
  have u: "uniqueName used name out n = uniqueName used name ?o (Suc n)"
    using "1.prems" by (subst uniqueName.simps) simp
  show ?case
  proof (cases "?o \<in> set used")
    case False
    then have "uniqueName used name ?o (Suc n) = ?o"
      by (subst uniqueName.simps) simp
    with u show ?thesis by auto
  next
    case True
    from "1.IH"[OF "1.prems" True] obtain k where
      k: "Suc n \<le> k" "uniqueName used name ?o (Suc n) = name @ ''-'' @ showNat k"
        "\<forall>j. Suc n \<le> j \<and> j < k \<longrightarrow> name @ ''-'' @ showNat j \<in> set used"
      by blast
    have "\<forall>j. n \<le> j \<and> j < k \<longrightarrow> name @ ''-'' @ showNat j \<in> set used"
    proof (intro allI impI)
      fix j assume "n \<le> j \<and> j < k"
      then have "j = n \<or> Suc n \<le> j \<and> j < k" by linarith
      with True k(3) show "name @ ''-'' @ showNat j \<in> set used" by blast
    qed
    with k u show ?thesis by (intro exI[of _ k]) simp
  qed
qed

lemma nameEach_fresh:
  "set (map snd (nameEach md5hex STABLE prefix used i vs)) \<inter> set used = {}
   \<and> distinct (map snd (nameEach md5hex STABLE prefix used i vs))"
proof (induction vs arbitrary: used i)
  case Nil
  then show ?case by simp
next
  case (Cons v vs)
  obtain out where o: "nameCall md5hex STABLE prefix used v i = (out, out # used)"
    by (simp add: nameCall_def Let_def)
  then have fresh: "out \<notin> set used"
    by (auto simp: nameCall_def Let_def uniqueName_fresh)
  from Cons.IH[of "out # used" "Suc i"]
  have ih: "set (map snd (nameEach md5hex STABLE prefix (out # used) (Suc i) vs)) \<inter> set (out # used) = {}"
    "distinct (map snd (nameEach md5hex STABLE prefix (out # used) (Suc i) vs))"
    by simp_all
  have e: "nameEach md5hex STABLE prefix used i (v # vs)
      = (v, out) # nameEach md5hex STABLE prefix (out # used) (Suc i) vs"
    by (simp add: o)
  from ih fresh show ?case unfolding e by auto
qed


text \<open>
  Claim C8. The names a factory gives to the literals of one category are pairwise
  different, in the sequential and in the stable mode, whatever the digest function (so
  also when two literals have the same short digest). The name returned by one call is
  not among the names used before; it is the generated name when that is unused, and
  otherwise the generated name with the first of the suffixes \<^verbatim>\<open>-2\<close>, \<^verbatim>\<open>-3\<close>, ...
  that gives an unused name.
\<close>

theorem names_unique:
  "distinct (map snd (makeNames md5hex STABLE prefix order))
   \<and> uniqueName used name name 2 \<notin> set used
   \<and> (name \<notin> set used \<longrightarrow> uniqueName used name name 2 = name)
   \<and> (name \<in> set used \<longrightarrow>
        (\<exists>k\<ge>2. uniqueName used name name 2 = name @ ''-'' @ showNat k
            \<and> (\<forall>j. 2 \<le> j \<and> j < k \<longrightarrow> name @ ''-'' @ showNat j \<in> set used)))"
proof (intro conjI impI)
  show "distinct (map snd (makeNames md5hex STABLE prefix order))"
    using nameEach_fresh[of md5hex STABLE prefix "[]" 0 order] by (simp add: makeNames_def)
  show "uniqueName used name name 2 \<notin> set used" by (rule uniqueName_fresh)
next
  assume "name \<notin> set used"
  then show "uniqueName used name name 2 = name" by (subst uniqueName.simps) simp
next
  assume "name \<in> set used"
  from uniqueName_suffix[OF this, of 2 name]
  show "\<exists>k\<ge>2. uniqueName used name name 2 = name @ ''-'' @ showNat k
            \<and> (\<forall>j. 2 \<le> j \<and> j < k \<longrightarrow> name @ ''-'' @ showNat j \<in> set used)"
    by simp
qed

theorem names_unique_witness:
  "distinct (map snd (makeNames (\<lambda>lit. ''0123456789abcdef'') True ''space'' [''8px'', ''16px'', ''4px'']))
   \<and> makeNames (\<lambda>lit. ''0123456789abcdef'') True ''space'' [''8px'', ''16px'', ''4px'']
       = [(''8px'', ''--space-01234567''), (''16px'', ''--space-01234567-2''), (''4px'', ''--space-01234567-3'')]
   \<and> makeNames (\<lambda>lit. ''0123456789abcdef'') False ''space'' [''8px'', ''16px'']
       = [(''8px'', ''--space-1''), (''16px'', ''--space-2'')]
   \<and> ''--fs-1'' \<in> set [''--fs-1-2'', ''--fs-1'']
   \<and> uniqueName [''--fs-1-2'', ''--fs-1''] ''--fs-1'' ''--fs-1'' 2 = ''--fs-1-3''
   \<and> ''--fs-2'' \<notin> set [''--fs-1-2'', ''--fs-1'']
   \<and> uniqueName [''--fs-1-2'', ''--fs-1''] ''--fs-2'' ''--fs-2'' 2 = ''--fs-2''"
proof -
  have a: "makeNames (\<lambda>lit. ''0123456789abcdef'') True ''space'' [''8px'', ''16px'', ''4px'']
       = [(''8px'', ''--space-01234567''), (''16px'', ''--space-01234567-2''), (''4px'', ''--space-01234567-3'')]"
    by (simp add: makeNames_def nameCall_def litHash_def uniqueName.simps showNat.simps digitChar_def Let_def)
  have b: "makeNames (\<lambda>lit. ''0123456789abcdef'') False ''space'' [''8px'', ''16px'']
       = [(''8px'', ''--space-1''), (''16px'', ''--space-2'')]"
    by (simp add: makeNames_def nameCall_def litHash_def uniqueName.simps showNat.simps digitChar_def Let_def)
  have c: "uniqueName [''--fs-1-2'', ''--fs-1''] ''--fs-1'' ''--fs-1'' 2 = ''--fs-1-3''"
    by (simp add: uniqueName.simps showNat.simps digitChar_def)
  have d: "''--fs-1'' \<in> set [''--fs-1-2'', ''--fs-1'']" "''--fs-2'' \<notin> set [''--fs-1-2'', ''--fs-1'']"
    by simp_all
  from names_unique[of "\<lambda>lit. ''0123456789abcdef''" True "''space''" "[''8px'', ''16px'', ''4px'']"
      "[''--fs-1-2'', ''--fs-1'']" "''--fs-2''"] d
  have e: "distinct (map snd (makeNames (\<lambda>lit. ''0123456789abcdef'') True ''space'' [''8px'', ''16px'', ''4px'']))"
    "uniqueName [''--fs-1-2'', ''--fs-1''] ''--fs-2'' ''--fs-2'' 2 = ''--fs-2''"
    by blast+
  from a b c d e show ?thesis by blast
qed


section \<open>Token document\<close>

text \<open>
  The two blocks of the token document are built line by line. A line is a heading (the
  words of a comment), the declaration of a token name with the text of its value, or the
  declaration of a color variable with its color; the script pushes the text
  \<^verbatim>\<open>  name: value;\<close> for a declaration, and for a color the value is the text
  \<^verbatim>\<open>rgbaToCss\<close> prints. A category enters the emission as the entries of its name map
  in the category's order, each literal with its name. The colors enter as the ordered
  color variables, each with the value \<^verbatim>\<open>toRgba(varToColor(v) || '#000')\<close> the loop
  computes for it.

  \<^verbatim>\<open>rgbaToCss\<close> prints channels with \<^verbatim>\<open>n.toString(16)\<close> and with template
  literals. These two printings of the language are taken as they are, as two functions
  from numbers to texts, so that a channel with a fraction prints as JavaScript prints it.
\<close>

datatype line = Heading string | Decl string string | ColorDecl string rgba

record numberText =
  text16 :: "real \<Rightarrow> string"
  text10 :: "real \<Rightarrow> string"

definition hex :: "numberText \<Rightarrow> real \<Rightarrow> string" where
  \<comment> \<open>\<^verbatim>\<open>n.toString(16).padStart(2, '0')\<close>, with \<open>text16\<close> for \<^verbatim>\<open>n.toString(16)\<close>\<close>
  "hex nt x = (let t = text16 nt x in replicate (2 - length t) (CHR ''0'') @ t)"

definition round4 :: "real \<Rightarrow> real" where
  \<comment> \<open>\<^verbatim>\<open>round(n, 4)\<close>\<close>
  "round4 x = jsRound (x * 10 ^ 4) / 10 ^ 4"

definition rgbaToCss :: "numberText \<Rightarrow> rgba \<Rightarrow> string" where
  \<comment> \<open>\<open>text10\<close> is the text of a number in a template literal\<close>
  "rgbaToCss nt c =
     (if rgba_a c = 1
      then CHR ''#'' # hex nt (rgba_r c) @ hex nt (rgba_g c) @ hex nt (rgba_b c)
      else ''rgba('' @ text10 nt (rgba_r c) @ '', '' @ text10 nt (rgba_g c)
           @ '', '' @ text10 nt (rgba_b c) @ '', ''
           @ text10 nt (round4 (rgba_a c)) @ '')'')"

definition lineText :: "numberText \<Rightarrow> line \<Rightarrow> string" where
  \<comment> \<open>the text pushed for a line; a heading stands for its comment\<close>
  "lineText nt entry_line =
     (case entry_line of
        Heading h \<Rightarrow> h
      | Decl n v \<Rightarrow> ''  '' @ n @ '': '' @ v @ '';''
      | ColorDecl n c \<Rightarrow> ''  '' @ n @ '': '' @ rgbaToCss nt c @ '';'')"

definition hexDigit :: "nat \<Rightarrow> char" where
  "hexDigit d = ''0123456789abcdef'' ! d"

fun showHex :: "nat \<Rightarrow> string" where
  "showHex n = (if n < 16 then [hexDigit n] else showHex (n div 16) @ [hexDigit (n mod 16)])"

declare showHex.simps [simp del]

definition integerText :: numberText where
  \<comment> \<open>the two printings on the non-negative integers, the only numbers the sample below
      prints: the hexadecimal and the decimal digits\<close>
  "integerText =
     \<lparr>text16 = (\<lambda>x. showHex (nat \<lfloor>x\<rfloor>)), text10 = (\<lambda>x. showNat (nat \<lfloor>x\<rfloor>))\<rparr>"

definition toMs :: "string \<Rightarrow> jsnum" where
  \<comment> \<open>on the texts \<^verbatim>\<open>DUR_RE\<close> matches, a number followed by \<^verbatim>\<open>ms\<close> or \<^verbatim>\<open>s\<close>\<close>
  "toMs str =
     (case numPrefix str of
        None \<Rightarrow> NaN
      | Some (num, rest) \<Rightarrow>
          if drop (length str - 2) str = ''ms'' then Fin (parseNum num)
          else Fin (parseNum num * 1000))"

definition normalizeDuration :: "string \<Rightarrow> string" where
  "normalizeDuration str = stripZero (numStrFixed 3 (jsScale (toMs str) (1 / 1000))) @ ''s''"

record run =
  run_features :: "string list"
  run_algorithm :: string
  run_rootSize :: real
  run_colors :: "(string \<times> rgba) list"
  run_ff :: "(string \<times> string) list"
  run_fs :: "(string \<times> string) list"
  run_lh :: "(string \<times> string) list"
  run_fw :: "(string \<times> string) list"
  run_ls :: "(string \<times> string) list"
  run_spacing :: "(string \<times> string) list"
  run_borderWidth :: "(string \<times> string) list"
  run_radius :: "(string \<times> string) list"
  run_shadow :: "(string \<times> string) list"
  run_dur :: "(string \<times> string) list"
  run_ease :: "(string \<times> string) list"

definition declsOf :: "(string \<times> string) list \<Rightarrow> line list" where
  \<comment> \<open>\<^verbatim>\<open>order.forEach((v) => lines.push(`  ${map.get(v)}: ${v};`))\<close>\<close>
  "declsOf toks = map (\<lambda>(v, n). Decl n v) toks"

definition colorsRoot :: "run \<Rightarrow> line list" where
  "colorsRoot T =
     (if ''colors'' \<in> set (run_features T)
      then Heading ''Colors'' # map (\<lambda>(v, c). ColorDecl v c) (run_colors T)
      else [])"

definition colorsDark :: "run \<Rightarrow> line list" where
  "colorsDark T =
     (if ''colors'' \<in> set (run_features T)
      then Heading ''Colors''
           # map (\<lambda>(v, c). ColorDecl v (toDark c (run_algorithm T))) (run_colors T)
      else [])"

definition typographyRoot :: "run \<Rightarrow> line list" where
  "typographyRoot T =
     (if ''typography'' \<in> set (run_features T)
      then (if run_ff T \<noteq> [] then Heading ''Typography - font families'' # declsOf (run_ff T) else [])
         @ (if run_fs T \<noteq> [] then Heading ''Typography - font sizes'' # declsOf (run_fs T) else [])
         @ (if run_lh T \<noteq> [] then Heading ''Typography - line heights'' # declsOf (run_lh T) else [])
         @ (if run_fw T \<noteq> [] then Heading ''Typography - font weights'' # declsOf (run_fw T) else [])
         @ (if run_ls T \<noteq> [] then Heading ''Typography - letter spacing'' # declsOf (run_ls T) else [])
      else [])"


definition spacingRoot :: "run \<Rightarrow> line list" where
  "spacingRoot T =
     (if ''spacing'' \<in> set (run_features T) \<and> run_spacing T \<noteq> []
      then Heading ''Spacing (by frequency)''
           # map (\<lambda>(lit, n). Decl n (preferRem (run_rootSize T) lit)) (run_spacing T)
      else [])"

definition bordersRoot :: "run \<Rightarrow> line list" where
  "bordersRoot T =
     (if ''borders'' \<in> set (run_features T) \<and> run_borderWidth T \<noteq> []
      then Heading ''Border widths'' # declsOf (run_borderWidth T) else [])"

definition radiusRoot :: "run \<Rightarrow> line list" where
  "radiusRoot T =
     (if ''radius'' \<in> set (run_features T) \<and> run_radius T \<noteq> []
      then Heading ''Radii'' # declsOf (run_radius T) else [])"

definition shadowsBlock :: "string \<Rightarrow> run \<Rightarrow> line list" where
  \<comment> \<open>the same declarations in both blocks, under the block's own heading\<close>
  "shadowsBlock heading T =
     (if ''shadows'' \<in> set (run_features T) \<and> run_shadow T \<noteq> []
      then Heading heading # declsOf (run_shadow T) else [])"

definition motionBlock :: "run \<Rightarrow> line list" where
  \<comment> \<open>pushed to both blocks alike\<close>
  "motionBlock T =
     (if ''motion'' \<in> set (run_features T) \<and> (run_dur T \<noteq> [] \<or> run_ease T \<noteq> [])
      then (if run_dur T \<noteq> []
            then Heading ''Durations'' # map (\<lambda>(d, n). Decl n (normalizeDuration d)) (run_dur T)
            else [])
         @ (if run_ease T \<noteq> [] then Heading ''Easing'' # declsOf (run_ease T) else [])
      else [])"

definition linesRoot :: "run \<Rightarrow> line list" where
  "linesRoot T =
     colorsRoot T @ typographyRoot T @ spacingRoot T @ bordersRoot T @ radiusRoot T
     @ shadowsBlock ''Shadows'' T @ motionBlock T"
















lemma spacing_in_root:
  assumes "''spacing'' \<in> set (run_features T)" and "(lit, n) \<in> set (run_spacing T)"
  shows "Decl n (preferRem (run_rootSize T) lit) \<in> set (spacingRoot T)"
proof -
  from assms(2) have "Decl n (preferRem (run_rootSize T) lit)
      \<in> set (map (\<lambda>(lit, n). Decl n (preferRem (run_rootSize T) lit)) (run_spacing T))"
    "run_spacing T \<noteq> []"
    by force+
  with assms(1) show ?thesis by (simp add: spacingRoot_def)
qed

lemma set_linesRoot:
  "set (linesRoot T) = set (colorsRoot T) \<union> set (typographyRoot T) \<union> set (spacingRoot T)
     \<union> set (bordersRoot T) \<union> set (radiusRoot T) \<union> set (shadowsBlock ''Shadows'' T)
     \<union> set (motionBlock T)"
  by (simp add: linesRoot_def Un_assoc)




definition sampleRun :: run where
  \<comment> \<open>the tables of a run with the default flags on
      \<^verbatim>\<open>body{color:#111;font-size:16px;padding:8px 6px;box-shadow:0 1px 2px #111;transition:color 200ms ease;}\<close>.
      Its one color takes eight roles and the map of literals to variables keeps the
      last of them, so the loop of the emission finds a literal for
      \<^verbatim>\<open>--color-disabled\<close> only and takes \<^verbatim>\<open>#000\<close> for the seven variables before
      it\<close>
  "sampleRun =
     \<lparr>run_features = [''colors'', ''spacing'', ''borders'', ''radius'', ''shadows'', ''motion'', ''typography''],
      run_algorithm = ''flip'', run_rootSize = 16,
      run_colors =
        [(''--color-fg'', \<lparr>rgba_r = 0, rgba_g = 0, rgba_b = 0, rgba_a = 1\<rparr>), (''--color-bg'', \<lparr>rgba_r = 0, rgba_g = 0, rgba_b = 0, rgba_a = 1\<rparr>), (''--color-border'', \<lparr>rgba_r = 0, rgba_g = 0, rgba_b = 0, rgba_a = 1\<rparr>),
         (''--color-surface-1'', \<lparr>rgba_r = 0, rgba_g = 0, rgba_b = 0, rgba_a = 1\<rparr>), (''--color-surface-2'', \<lparr>rgba_r = 0, rgba_g = 0, rgba_b = 0, rgba_a = 1\<rparr>),
         (''--color-outline'', \<lparr>rgba_r = 0, rgba_g = 0, rgba_b = 0, rgba_a = 1\<rparr>), (''--color-muted'', \<lparr>rgba_r = 0, rgba_g = 0, rgba_b = 0, rgba_a = 1\<rparr>),
         (''--color-disabled'', \<lparr>rgba_r = 17, rgba_g = 17, rgba_b = 17, rgba_a = 1\<rparr>)],
      run_ff = [], run_fs = [(''16px'', ''--fs-1'')], run_lh = [], run_fw = [], run_ls = [],
      run_spacing = [(''8px'', ''--space-1''), (''6px'', ''--space-2'')],
      run_borderWidth = [], run_radius = [],
      run_shadow = [(''0 1px 2px #111'', ''--shadow-1'')],
      run_dur = [(''200ms'', ''--duration-1'')], run_ease = [(''ease'', ''--ease-1'')]\<rparr>"




text \<open>
  The color lines of the sample run, printed: black and the gray 17 are integers in every
  channel, and both come out of the flip at level 235.
\<close>

lemma sample_color_lines:
  "map (lineText integerText) (colorsRoot sampleRun) =
     [''Colors'', ''  --color-fg: #000000;'', ''  --color-bg: #000000;'',
      ''  --color-border: #000000;'', ''  --color-surface-1: #000000;'',
      ''  --color-surface-2: #000000;'', ''  --color-outline: #000000;'',
      ''  --color-muted: #000000;'', ''  --color-disabled: #111111;'']
   \<and> map (lineText integerText) (colorsDark sampleRun) =
     [''Colors'', ''  --color-fg: #ebebeb;'', ''  --color-bg: #ebebeb;'',
      ''  --color-border: #ebebeb;'', ''  --color-surface-1: #ebebeb;'',
      ''  --color-surface-2: #ebebeb;'', ''  --color-outline: #ebebeb;'',
      ''  --color-muted: #ebebeb;'', ''  --color-disabled: #ebebeb;'']"
proof -
  have sb: "hsl_s (rgbaToHsl \<lparr>rgba_r = 0, rgba_g = 0, rgba_b = 0, rgba_a = 1\<rparr>) < 0.08" and lb: "hsl_l (rgbaToHsl \<lparr>rgba_r = 0, rgba_g = 0, rgba_b = 0, rgba_a = 1\<rparr>) = 0"
    by (simp_all add: rgbaToHsl_gray)
  have sg: "hsl_s (rgbaToHsl \<lparr>rgba_r = 17, rgba_g = 17, rgba_b = 17, rgba_a = 1\<rparr>) < 0.08" and lg: "hsl_l (rgbaToHsl \<lparr>rgba_r = 17, rgba_g = 17, rgba_b = 17, rgba_a = 1\<rparr>) = 1 / 15"
    by (simp_all add: rgbaToHsl_gray)
  have fb: "flipLevel 0 = 235" and fg: "flipLevel (1 / 15) = 235"
    by (simp_all add: flipLevel_def clamp_def jsRound_def)
  have db: "toDark \<lparr>rgba_r = 0, rgba_g = 0, rgba_b = 0, rgba_a = 1\<rparr> ''flip'' = \<lparr>rgba_r = 235, rgba_g = 235, rgba_b = 235, rgba_a = 1\<rparr>"
    using toDark_flip_neutral[OF sb, of "''flip''"] unfolding lb fb by (simp add: clamp_def)
  have dg: "toDark \<lparr>rgba_r = 17, rgba_g = 17, rgba_b = 17, rgba_a = 1\<rparr> ''flip'' = \<lparr>rgba_r = 235, rgba_g = 235, rgba_b = 235, rgba_a = 1\<rparr>"
    using toDark_flip_neutral[OF sg, of "''flip''"] unfolding lg fg by (simp add: clamp_def)
  have c0: "rgbaToCss integerText \<lparr>rgba_r = 0, rgba_g = 0, rgba_b = 0, rgba_a = 1\<rparr> = ''#000000''"
    and c1: "rgbaToCss integerText \<lparr>rgba_r = 17, rgba_g = 17, rgba_b = 17, rgba_a = 1\<rparr> = ''#111111''"
    and c2: "rgbaToCss integerText \<lparr>rgba_r = 235, rgba_g = 235, rgba_b = 235, rgba_a = 1\<rparr> = ''#ebebeb''"
    by (simp_all add: rgbaToCss_def hex_def integerText_def showHex.simps hexDigit_def)
  show ?thesis
    by (simp add: colorsRoot_def colorsDark_def sampleRun_def lineText_def db dg c0 c1 c2)
qed

lemma sample_duration: "normalizeDuration ''200ms'' = ''0.2s''"
  by (simp add: normalizeDuration_def toMs_def eval_defs)

subsection \<open>Spacing values\<close>
lemma jsRem_4_iff: "jsRem x 4 = 0 \<longleftrightarrow> (\<exists>k::int. x = 4 * of_int k)"
proof
  assume "jsRem x 4 = 0"
  then have "x = 4 * of_int (if x / 4 < 0 then \<lceil>x / 4\<rceil> else \<lfloor>x / 4\<rfloor>)"
    by (simp add: jsRem_def)
  then show "\<exists>k::int. x = 4 * of_int k" by blast
next
  assume "\<exists>k::int. x = 4 * of_int k"
  then obtain k :: int where k: "x = 4 * of_int k" by blast
  then have "x / 4 = of_int k" by simp
  then show "jsRem x 4 = 0" unfolding jsRem_def using k by simp
qed

lemma matchLen_px_only:
  "matchLen False [''px''] lit =
     (case matchLen False lenUnits lit of
        None \<Rightarrow> None
      | Some (num, u) \<Rightarrow> if u = ''px'' then Some (num, u) else None)"
proof (cases "numPrefix lit")
  case None
  then show ?thesis by (simp add: matchLen_def)
next
  case (Some p)
  obtain num rest where p: "p = (num, rest)" by (cases p)
  show ?thesis
  proof (cases "take 2 rest = ''px''")
    case True
    then show ?thesis by (simp add: matchLen_def Some p lenUnits_def Let_def)
  next
    case False
    have "unitPrefix False lenUnits rest = Some (u, r) \<Longrightarrow> u \<noteq> ''px''" for u r
      using False unitPrefix_split[of False lenUnits rest u r]
      by (auto simp: lenUnits_def Let_def split: if_splits)
    with False show ?thesis
      by (auto simp: matchLen_def Some p Let_def split: option.splits)
  qed
qed


text \<open>
  Claim C9. Every spacing literal of a run is declared in the default block with the
  value \<^verbatim>\<open>preferRem\<close> gives it. For a length literal in \<^verbatim>\<open>px\<close> whose number is a
  multiple of 4 that value is the number divided by the root size, rounded to four
  decimals, printed without trailing zeros and followed by \<^verbatim>\<open>rem\<close>; for every other
  literal it is the literal itself.
\<close>

theorem spacing_prefers_rem:
  "(''spacing'' \<in> set (run_features T) \<and> (lit, n) \<in> set (run_spacing T)
      \<longrightarrow> Decl n (preferRem (run_rootSize T) lit) \<in> set (linesRoot T))
   \<and> (matchLen False lenUnits lit = Some (num, u) \<and> u = ''px'' \<and> (\<exists>k::int. parseNum num = 4 * of_int k)
      \<longrightarrow> preferRem ROOT_SIZE lit = stripZero (numStrFixed 4 (jsDiv (parseNum num) ROOT_SIZE)) @ ''rem'')
   \<and> (matchLen False lenUnits lit = Some (num, u) \<and> (u \<noteq> ''px'' \<or> \<not> (\<exists>k::int. parseNum num = 4 * of_int k))
      \<longrightarrow> preferRem ROOT_SIZE lit = lit)
   \<and> (matchLen False lenUnits lit = None \<longrightarrow> preferRem ROOT_SIZE lit = lit)"
proof -
  have "''spacing'' \<in> set (run_features T) \<and> (lit, n) \<in> set (run_spacing T)
      \<longrightarrow> Decl n (preferRem (run_rootSize T) lit) \<in> set (linesRoot T)"
    unfolding set_linesRoot using spacing_in_root[of T lit n] by blast
  moreover have "(matchLen False lenUnits lit = Some (num, u) \<and> u = ''px'' \<and> (\<exists>k::int. parseNum num = 4 * of_int k)
      \<longrightarrow> preferRem ROOT_SIZE lit = stripZero (numStrFixed 4 (jsDiv (parseNum num) ROOT_SIZE)) @ ''rem'')
   \<and> (matchLen False lenUnits lit = Some (num, u) \<and> (u \<noteq> ''px'' \<or> \<not> (\<exists>k::int. parseNum num = 4 * of_int k))
      \<longrightarrow> preferRem ROOT_SIZE lit = lit)
   \<and> (matchLen False lenUnits lit = None \<longrightarrow> preferRem ROOT_SIZE lit = lit)"
    by (auto simp: preferRem_def matchLen_px_only jsRem_4_iff Let_def)
  ultimately show ?thesis by blast
qed

theorem spacing_prefers_rem_witness:
  "''spacing'' \<in> set (run_features sampleRun) \<and> (''8px'', ''--space-1'') \<in> set (run_spacing sampleRun)
   \<and> Decl ''--space-1'' (preferRem (run_rootSize sampleRun) ''8px'') \<in> set (linesRoot sampleRun)
   \<and> matchLen False lenUnits ''8px'' = Some (''8'', ''px'') \<and> (\<exists>k::int. parseNum ''8'' = 4 * of_int k)
   \<and> preferRem 16 ''8px'' = stripZero (numStrFixed 4 (jsDiv (parseNum ''8'') 16)) @ ''rem''
   \<and> preferRem 16 ''8px'' = ''0.5rem''
   \<and> matchLen False lenUnits ''6px'' = Some (''6'', ''px'') \<and> \<not> (\<exists>k::int. parseNum ''6'' = 4 * of_int k)
   \<and> preferRem 16 ''6px'' = ''6px''
   \<and> matchLen False lenUnits ''1rem'' = Some (''1'', ''rem'') \<and> ''rem'' \<noteq> ''px''
   \<and> preferRem 16 ''1rem'' = ''1rem''
   \<and> matchLen False lenUnits ''auto'' = None
   \<and> preferRem 16 ''auto'' = ''auto''"
proof -
  have a: "''spacing'' \<in> set (run_features sampleRun)" "(''8px'', ''--space-1'') \<in> set (run_spacing sampleRun)"
    by (simp_all add: sampleRun_def)
  have m8: "matchLen False lenUnits ''8px'' = Some (''8'', ''px'')"
    and m6: "matchLen False lenUnits ''6px'' = Some (''6'', ''px'')"
    and m1: "matchLen False lenUnits ''1rem'' = Some (''1'', ''rem'')"
    and m0: "matchLen False lenUnits ''auto'' = None"
    by (simp_all add: lenUnits_def eval_defs)
  have p8: "parseNum ''8'' = 8" and p6: "parseNum ''6'' = 6"
    by (simp_all add: eval_defs)
  have d8: "\<exists>k::int. parseNum ''8'' = 4 * of_int k"
    unfolding p8 by (rule exI[of _ 2]) simp
  have d6: "\<not> (\<exists>k::int. parseNum ''6'' = 4 * of_int k)"
  proof
    assume "\<exists>k::int. parseNum ''6'' = 4 * of_int k"
    then obtain k :: int where "(6::real) = 4 * of_int k" unfolding p6 by blast
    then have "(of_int 6 :: real) = of_int (4 * k)" by simp
    then have "(6::int) = 4 * k" by (simp only: of_int_eq_iff)
    then show False by presburger
  qed
  have r: "''rem'' \<noteq> ''px''" by simp
  from spacing_prefers_rem[of sampleRun "''8px''" "''--space-1''" "''8''" "''px''" 16] a m8 d8
  have 1: "Decl ''--space-1'' (preferRem (run_rootSize sampleRun) ''8px'') \<in> set (linesRoot sampleRun)"
    and 2: "preferRem 16 ''8px'' = stripZero (numStrFixed 4 (jsDiv (parseNum ''8'') 16)) @ ''rem''"
    by blast+
  have 3: "preferRem 16 ''8px'' = ''0.5rem''"
    unfolding 2 p8 by (simp add: eval_defs)
  from spacing_prefers_rem[of sampleRun "''6px''" "''--space-2''" "''6''" "''px''" 16] m6 d6
  have 4: "preferRem 16 ''6px'' = ''6px''" by blast
  from spacing_prefers_rem[of sampleRun "''1rem''" "''--space-2''" "''1''" "''rem''" 16] m1 r
  have 5: "preferRem 16 ''1rem'' = ''1rem''" by blast
  from spacing_prefers_rem[of sampleRun "''auto''" "''--space-2''" "''1''" "''rem''" 16] m0
  have 6: "preferRem 16 ''auto'' = ''auto''" by blast
  from a m8 m6 m1 m0 d8 d6 r 1 2 3 4 5 6 show ?thesis by blast
qed


section \<open>Semantic color roles\<close>

text \<open>
  The color table enters as the list of its entries in insertion order, each literal with
  its node after the color pass: the count, the properties and selectors it was seen in,
  and the \<^verbatim>\<open>rgba\<close> value \<^verbatim>\<open>toRgba\<close> gave it, from which \<^verbatim>\<open>hsl\<close>, \<^verbatim>\<open>sat\<close> and
  \<^verbatim>\<open>lum\<close> are derived. A candidate is an entry of the table, so that the lookups
  \<^verbatim>\<open>byColor.get(c)\<close> of the helpers always find their node.
\<close>

record colorNode =
  node_count :: nat
  node_props :: "(string \<times> nat) list"
  node_selectors :: "string list"
  node_rgba :: rgba

type_synonym entry = "string \<times> colorNode"

definition nodeHsl :: "entry \<Rightarrow> hsl" where
  "nodeHsl e = rgbaToHsl (node_rgba (snd e))"

definition sat :: "entry \<Rightarrow> real" where
  "sat e = hsl_s (nodeHsl e)"

definition lum :: "entry \<Rightarrow> real" where
  "lum e = relLuminance (node_rgba (snd e))"

definition log1pCount :: "entry \<Rightarrow> real" where
  \<comment> \<open>\<^verbatim>\<open>Math.log1p(count(c))\<close>\<close>
  "log1pCount e = ln (1 + real (node_count (snd e)))"

definition isGrayish :: "entry \<Rightarrow> bool" where
  "isGrayish e = (sat e \<le> 0.1)"

definition isSaturated :: "entry \<Rightarrow> bool" where
  "isSaturated e = (sat e \<ge> 0.22)"

definition usedInProp :: "entry \<Rightarrow> string \<Rightarrow> bool" where
  "usedInProp e name = (name \<in> fst ` set (node_props (snd e)))"

definition usedInSelector :: "entry \<Rightarrow> (string \<Rightarrow> bool) \<Rightarrow> bool" where
  "usedInSelector e re = (\<exists>s \<in> set (node_selectors (snd e)). re s)"

definition distinctFrom :: "entry \<Rightarrow> entry option \<Rightarrow> bool" where
  \<comment> \<open>the helper \<^verbatim>\<open>distinct(a, b)\<close>, where \<open>b\<close> is the literal of an earlier role or null\<close>
  "distinctFrom x y = (case y of None \<Rightarrow> True | Some z \<Rightarrow> hslDist (nodeHsl x) (nodeHsl z) > 0.18)"

fun containsStr :: "string \<Rightarrow> string \<Rightarrow> bool" where
  "containsStr pat [] = (pat = [])"
| "containsStr pat (c # cs) = (take (length pat) (c # cs) = pat \<or> containsStr pat cs)"

fun containsWord :: "bool \<Rightarrow> string \<Rightarrow> string \<Rightarrow> bool" where
  \<comment> \<open>\<^verbatim>\<open>\bword\b\<close> somewhere in the text; the flag says whether the character before the
      text is a word character\<close>
  "containsWord before w [] = False"
| "containsWord before w (c # cs) =
     ((\<not> before \<and> take (length w) (c # cs) = w
        \<and> (case drop (length w) (c # cs) of [] \<Rightarrow> True | d # _ \<Rightarrow> \<not> isWordChar d))
      \<or> containsWord (isWordChar c) w cs)"

definition reBody :: "string \<Rightarrow> bool" where
  \<comment> \<open>\<^verbatim>\<open>/\bbody\b/\<close>\<close>
  "reBody s = containsWord False ''body'' s"

definition reLink :: "string \<Rightarrow> bool" where
  \<comment> \<open>\<^verbatim>\<open>/\ba\b|button|\.button|:hover/i\<close>\<close>
  "reLink s =
     (let t = map toLowerChar s
      in containsWord False ''a'' t \<or> containsStr ''button'' t \<or> containsStr ''.button'' t
         \<or> containsStr '':hover'' t)"

definition reFocus :: "string \<Rightarrow> bool" where
  \<comment> \<open>\<^verbatim>\<open>/focus|:focus|skip-link|screen-reader/\<close>\<close>
  "reFocus s =
     (containsStr ''focus'' s \<or> containsStr '':focus'' s \<or> containsStr ''skip-link'' s
      \<or> containsStr ''screen-reader'' s)"

definition reDisabled :: "string \<Rightarrow> bool" where
  \<comment> \<open>\<^verbatim>\<open>/disabled/\<close>\<close>
  "reDisabled s = containsStr ''disabled'' s"

definition pickBest :: "entry list \<Rightarrow> (entry \<Rightarrow> real) \<Rightarrow> entry option" where
  \<comment> \<open>without the third argument\<close>
  "pickBest cands scoreFn =
     (if cands = [] then None
      else (case jsSort (\<lambda>x y. snd y - snd x) (map (\<lambda>c. (c, scoreFn c)) cands) of
              [] \<Rightarrow> None
            | ranked0 # _ \<Rightarrow> Some (fst ranked0)))"

definition pickBestMark :: "entry list \<Rightarrow> (entry \<Rightarrow> real) \<Rightarrow> string set \<Rightarrow> entry option \<times> string set" where
  \<comment> \<open>with the set as third argument: the pick is added to it; the set is not read\<close>
  "pickBestMark cands scoreFn markUsed =
     (case pickBest cands scoreFn of
        None \<Rightarrow> (None, markUsed)
      | Some pick \<Rightarrow> (Some pick, insert (fst pick) markUsed))"

definition orElse :: "'a option \<Rightarrow> 'a option \<Rightarrow> 'a option" where
  \<comment> \<open>\<^verbatim>\<open>x || y\<close> on a literal or null\<close>
  "orElse x y = (case x of None \<Rightarrow> y | Some _ \<Rightarrow> x)"

definition fgScore :: "entry \<Rightarrow> real" where
  "fgScore c =
     (1 - lum c) * 2.0 + log1pCount c * 0.4
     + (if usedInProp c ''color'' then 1.0 else 0)
     + (if usedInSelector c reBody then 2.0 else 0)"

definition fgFallbackScore :: "entry \<Rightarrow> real" where
  "fgFallbackScore c = 1 - lum c + log1pCount c * 0.3"

definition bgScore :: "entry \<Rightarrow> real" where
  "bgScore c =
     lum c * 2.0 + log1pCount c * 0.3
     + (if usedInProp c ''background'' \<or> usedInProp c ''background-color'' then 0.7 else 0)
     + (if usedInSelector c reBody then 2.0 else 0)"

definition primaryScore :: "entry \<Rightarrow> real" where
  "primaryScore c =
     sat c * 2.0 + log1pCount c * 0.4
     + (if usedInSelector c reLink then 1.5 else 0)
     + (if usedInProp c ''color'' \<or> usedInProp c ''background'' \<or> usedInProp c ''border''
           \<or> usedInProp c ''border-color'' then 0.7 else 0)
     + (if lum c > 0.2 \<and> lum c < 0.9 then 0.3 else - 0.2)"

definition secondaryScore :: "entry \<Rightarrow> real" where
  "secondaryScore c = sat c + log1pCount c * 0.3"

definition accentScore :: "entry \<Rightarrow> real" where
  "accentScore c = sat c + log1pCount c * 0.25"

definition borderScore :: "entry \<Rightarrow> real" where
  "borderScore c =
     (1 - \<bar>lum c - 0.88\<bar>) * 1.5
     + (if usedInProp c ''border'' \<or> usedInProp c ''border-color'' then 1.0 else 0)
     + log1pCount c * 0.2"

definition surface1Score :: "entry \<Rightarrow> real" where
  "surface1Score c =
     (1 - \<bar>lum c - 0.96\<bar>) * 1.4
     + (if usedInProp c ''background'' \<or> usedInProp c ''background-color'' then 0.6 else 0)
     + log1pCount c * 0.2"

definition surface2Score :: "entry \<Rightarrow> real" where
  "surface2Score c =
     (1 - \<bar>lum c - 0.9\<bar>) * 1.2
     + (if usedInProp c ''background'' \<or> usedInProp c ''background-color'' then 0.5 else 0)
     + log1pCount c * 0.2"

definition outlineScore :: "entry \<Rightarrow> real" where
  "outlineScore c =
     (if usedInProp c ''outline'' then 2.0 else 0)
     + (if usedInSelector c reFocus then 1.0 else 0)
     + (if isGrayish c then 0.3 else 0)
     - \<bar>lum c - 0.75\<bar>"

definition mutedScore :: "entry \<Rightarrow> real" where
  "mutedScore c = 1 - \<bar>lum c - 0.5\<bar> + log1pCount c * 0.1"

definition disabledScore :: "entry \<Rightarrow> real" where
  "disabledScore c = (if usedInSelector c reDisabled then 1.5 else 0) + (1 - \<bar>lum c - 0.6\<bar>)"

record roles =
  role_fg :: "string option"
  role_bg :: "string option"
  role_primary :: "string option"
  role_secondary :: "string option"
  role_accent :: "string option"
  role_border :: "string option"
  role_surface1 :: "string option"
  role_surface2 :: "string option"
  role_outline :: "string option"
  role_muted :: "string option"
  role_disabled :: "string option"
  role_used :: "string set"

definition assignRoles :: "entry list \<Rightarrow> roles" where
  \<comment> \<open>the assignments to \<^verbatim>\<open>roles[...]\<close> in their order, with the set \<^verbatim>\<open>used\<close> passed along\<close>
  "assignRoles palette =
     (let used0 = {};
          fg = orElse (pickBest (filter isGrayish palette) fgScore) (pickBest palette fgFallbackScore);
          (bg, used1) = pickBestMark palette bgScore used0;
          (primary, used2) = pickBestMark (filter isSaturated palette) primaryScore used1;
          (secondary, used3) =
             pickBestMark (filter (\<lambda>c. isSaturated c \<and> distinctFrom c primary) palette)
               secondaryScore used2;
          (accent, used4) =
             pickBestMark
               (filter (\<lambda>c. isSaturated c \<and> distinctFrom c primary \<and> distinctFrom c secondary) palette)
               accentScore used3;
          (border, used5) = pickBestMark (filter isGrayish palette) borderScore used4;
          (surface1, used6) = pickBestMark (filter isGrayish palette) surface1Score used5;
          (surface2, used7) = pickBestMark (filter isGrayish palette) surface2Score used6;
          (outline0, used8) = pickBestMark palette outlineScore used7;
          outline = orElse outline0 border;
          (muted, used9) = pickBestMark (filter isGrayish palette) mutedScore used8;
          (disabled0, used10) = pickBestMark (filter isGrayish palette) disabledScore used9;
          disabled = orElse disabled0 muted
      in \<lparr>role_fg = map_option fst fg, role_bg = map_option fst bg,
          role_primary = map_option fst primary, role_secondary = map_option fst secondary,
          role_accent = map_option fst accent, role_border = map_option fst border,
          role_surface1 = map_option fst surface1, role_surface2 = map_option fst surface2,
          role_outline = map_option fst outline, role_muted = map_option fst muted,
          role_disabled = map_option fst disabled, role_used = used10\<rparr>)"

definition roleEntries :: "roles \<Rightarrow> (string \<times> string option) list" where
  \<comment> \<open>\<^verbatim>\<open>Object.entries(roles)\<close>\<close>
  "roleEntries R =
     [(''--color-fg'', role_fg R), (''--color-bg'', role_bg R), (''--color-primary'', role_primary R),
      (''--color-secondary'', role_secondary R), (''--color-accent'', role_accent R),
      (''--color-border'', role_border R), (''--color-surface-1'', role_surface1 R),
      (''--color-surface-2'', role_surface2 R), (''--color-outline'', role_outline R),
      (''--color-muted'', role_muted R), (''--color-disabled'', role_disabled R)]"

definition mapSet :: "(string \<times> string) list \<Rightarrow> string \<Rightarrow> string \<Rightarrow> (string \<times> string) list" where
  \<comment> \<open>\<^verbatim>\<open>Map.prototype.set\<close>: a key that is present keeps its place and takes the new value\<close>
  "mapSet m k v =
     (if k \<in> fst ` set m then map (\<lambda>(k', v'). if k' = k then (k', v) else (k', v')) m
      else m @ [(k, v)])"

definition semanticMap :: "roles \<Rightarrow> (string \<times> string) list" where
  \<comment> \<open>color literal to variable name\<close>
  "semanticMap R =
     foldl (\<lambda>m (varName, colorLit). case colorLit of None \<Rightarrow> m | Some lit \<Rightarrow> mapSet m lit varName)
       [] (roleEntries R)"

definition varToColor :: "(string \<times> string) list \<Rightarrow> (string \<times> string) list \<Rightarrow> string \<Rightarrow> string option" where
  "varToColor semMap numericColorMap v =
     (case find (\<lambda>(lit, name). name = v) semMap of
        Some (lit, name) \<Rightarrow> Some lit
      | None \<Rightarrow>
          (case find (\<lambda>(lit, name). name = v) numericColorMap of
             Some (lit, name) \<Rightarrow> Some lit
           | None \<Rightarrow> None))"

lemma pickBest_single: "pickBest [e] f = Some e"
  by (simp add: pickBest_def jsSort_def)

lemma pickBestMark_single: "pickBestMark [e] f U = (Some e, insert (fst e) U)"
  by (simp add: pickBestMark_def pickBest_single)

lemma pickBestMark_ignores_used:
  "fst (pickBestMark cands f U) = pickBest cands f
   \<and> snd (pickBestMark cands f U) = (case pickBest cands f of None \<Rightarrow> U | Some pick \<Rightarrow> insert (fst pick) U)"
  by (simp add: pickBestMark_def split: option.splits)

lemma pickBest_empty: "pickBest [] f = None"
  by (simp add: pickBest_def)

lemma pickBestMark_empty: "pickBestMark [] f U = (None, U)"
  by (simp add: pickBestMark_def pickBest_empty)


text \<open>
  A palette of one color: the one entry is the pick of every role whose pool it is in.
\<close>

lemma one_color_takes_two_roles:
  "role_fg (assignRoles [e]) = Some (fst e)
   \<and> role_bg (assignRoles [e]) = Some (fst e)
   \<and> role_outline (assignRoles [e]) = Some (fst e)
   \<and> (isGrayish e \<longrightarrow> role_border (assignRoles [e]) = Some (fst e)
         \<and> role_surface1 (assignRoles [e]) = Some (fst e)
         \<and> role_surface2 (assignRoles [e]) = Some (fst e)
         \<and> role_muted (assignRoles [e]) = Some (fst e)
         \<and> role_disabled (assignRoles [e]) = Some (fst e))"
proof (cases "isGrayish e")
  case True
  then show ?thesis
    by (simp add: assignRoles_def Let_def pickBest_single pickBestMark_single pickBest_empty
        pickBestMark_empty orElse_def)
next
  case False
  then show ?thesis
    by (simp add: assignRoles_def Let_def pickBest_single pickBestMark_single pickBest_empty
        pickBestMark_empty orElse_def)
qed

definition darkGray :: entry where
  \<comment> \<open>the entry of \<^verbatim>\<open>#111\<close> in the color table of a run on \<^verbatim>\<open>body{color:#111;}\<close>\<close>
  "darkGray =
     (''#111'', \<lparr>node_count = 1, node_props = [(''color'', 1)], node_selectors = [''body''],
                  node_rgba = \<lparr>rgba_r = 17, rgba_g = 17, rgba_b = 17, rgba_a = 1\<rparr>\<rparr>)"

definition oneColorTable :: "entry list" where
  \<comment> \<open>the color table of that run\<close>
  "oneColorTable = [darkGray]"

lemma darkGray_pools: "isGrayish darkGray \<and> \<not> isSaturated darkGray \<and> fst darkGray = ''#111''"
  by (simp add: darkGray_def isGrayish_def isSaturated_def sat_def nodeHsl_def rgbaToHsl_gray)

lemma gray_single_roles:
  assumes "isGrayish e" "\<not> isSaturated e"
  shows "assignRoles [e] =
     \<lparr>role_fg = Some (fst e), role_bg = Some (fst e), role_primary = None,
      role_secondary = None, role_accent = None, role_border = Some (fst e),
      role_surface1 = Some (fst e), role_surface2 = Some (fst e), role_outline = Some (fst e),
      role_muted = Some (fst e), role_disabled = Some (fst e), role_used = {fst e}\<rparr>"
  using assms
  by (simp add: assignRoles_def Let_def pickBest_single pickBestMark_single pickBest_empty
      pickBestMark_empty orElse_def)


text \<open>
  Claim C1, at its failing input. \<^verbatim>\<open>pickBest\<close> adds its pick to the set \<^verbatim>\<open>used\<close> and
  nothing reads that set: no pool is filtered by it. On the color table of
  \<^verbatim>\<open>body{color:#111;}\<close> the literal \<^verbatim>\<open>#111\<close> is chosen for the background, marked used,
  and chosen again for the border, both surfaces, the outline, the muted and the disabled
  role; it is the foreground as well. Eight roles hold one literal, and \<^verbatim>\<open>used\<close> holds
  one element.
\<close>

theorem one_color_table_roles:
  "assignRoles oneColorTable =
     \<lparr>role_fg = Some ''#111'', role_bg = Some ''#111'', role_primary = None,
      role_secondary = None, role_accent = None, role_border = Some ''#111'',
      role_surface1 = Some ''#111'', role_surface2 = Some ''#111'', role_outline = Some ''#111'',
      role_muted = Some ''#111'', role_disabled = Some ''#111'', role_used = {''#111''}\<rparr>"
proof -
  from darkGray_pools have g: "isGrayish darkGray" and s: "\<not> isSaturated darkGray"
    and k: "fst darkGray = ''#111''"
    by simp_all
  from gray_single_roles[OF g s] show ?thesis
    by (simp only: oneColorTable_def k)
qed

text \<open>
  The map from literals to variable names keeps one name per literal, the last one set;
  the variables of the roles set before resolve to no literal, and the emission prints
  them with the fallback \<^verbatim>\<open>#000\<close>.
\<close>

lemma one_color_table_variables:
  "semanticMap (assignRoles oneColorTable) = [(''#111'', ''--color-disabled'')]
   \<and> varToColor (semanticMap (assignRoles oneColorTable)) [] ''--color-fg'' = None
   \<and> varToColor (semanticMap (assignRoles oneColorTable)) [] ''--color-disabled'' = Some ''#111''"
proof -
  from darkGray_pools have g: "isGrayish darkGray" and s: "\<not> isSaturated darkGray"
    and k: "fst darkGray = ''#111''"
    by simp_all
  show ?thesis
    unfolding oneColorTable_def gray_single_roles[OF g s] k
    by (simp add: semanticMap_def roleEntries_def mapSet_def varToColor_def)
qed

end
